theory Spec2Isabelle
  imports Complex_Main "HOL-Library.Char_ord" "HOL-Library.Sublist"
begin

section \<open>Data model of \<open>argparse::Argument_Parser\<close>\<close>

text \<open>
  The class \<open>Argument_Parser\<close> of \<open>include/argument-parser.h\<close> is embedded with its
  member variables as the fields of a record. The two \<open>std::unordered_map\<close> members are
  maps, the two order vectors are lists. Member functions take the object as their first
  argument; those that modify it return the modified object.
\<close>

datatype Optional_Type = FLAG | SINGLE | APPEND

record Positional_Info =
  pos_value :: string
  pos_help_text :: string

record Optional_Info =
  opt_flag :: char
  opt_type :: Optional_Type
  opt_values :: "string list"
  opt_help_text :: string

record parser =
  m_scriptname :: string
  m_positional_order :: "string list"
  m_positional_args :: "string \<rightharpoonup> Positional_Info"
  m_optional_order :: "string list"
  m_optional_args :: "string \<rightharpoonup> Optional_Info"
  m_flags :: "char \<rightharpoonup> string"

text \<open>
  Every \<open>throw\<close> statement of the class is one constructor of \<open>exn\<close>, carrying the
  values that the statement puts into its message.
  \<^item> \<open>std::logic_error\<close>: \<open>Invalid_positional_name\<close>, \<open>Duplicate_positional_name\<close>,
    \<open>Positional_conflicts_optional\<close>, \<open>Invalid_optional_name\<close>, \<open>Duplicate_optional_name\<close>,
    \<open>Optional_conflicts_positional\<close>, \<open>Invalid_flag_name\<close>, \<open>Duplicate_flag_name\<close>
    (declaration), \<open>No_optional_by_name\<close>, \<open>No_argument_by_name\<close>, \<open>No_value_no_default\<close>
    (retrieval);
  \<^item> \<open>std::out_of_range\<close>: \<open>Index_out_of_range\<close>;
  \<^item> \<open>std::runtime_error\<close>: \<open>Invalid_option\<close>, \<open>Invalid_flag\<close>, \<open>Only_once\<close>,
    \<open>Requires_value\<close>, \<open>Requires_positional\<close> (scanning), \<open>Must_be_true_or_false\<close>,
    \<open>Must_be_single_character\<close>, \<open>Must_be_integral\<close>, \<open>Must_be_in_range\<close> (conversion).
\<close>

datatype exn =
    Invalid_positional_name string
  | Duplicate_positional_name string
  | Positional_conflicts_optional string
  | Invalid_optional_name string
  | Duplicate_optional_name string
  | Optional_conflicts_positional string
  | Invalid_flag_name string
  | Duplicate_flag_name string
  | No_optional_by_name string
  | No_argument_by_name string
  | No_value_no_default string
  | Index_out_of_range nat string
  | Invalid_option string
  | Invalid_flag string
  | Only_once string
  | Requires_value string
  | Requires_positional string
  | Must_be_true_or_false string
  | Must_be_single_character string
  | Must_be_integral string
  | Must_be_in_range string

text \<open>
  A call returns a value, throws, or ends the process (\<open>print_help(); std::exit(0)\<close> in
  \<open>parse_optional_arg\<close>).
\<close>

datatype 'a outcome = Returns 'a | Throws exn | Exits

section \<open>Lexical rules\<close>

text \<open>
  The four regular expressions are matched with \<open>std::regex_match\<close> against
  \<open>name.c_str()\<close>: the whole C string, which ends at the first NUL character, has to match.
\<close>

definition c_str :: "string \<Rightarrow> string" where
  "c_str s = takeWhile (\<lambda>c. c \<noteq> CHR 0x00) s"

text \<open>\<open>[a-zA-Z_]\<close>\<close>

definition is_alpha_us :: "char \<Rightarrow> bool" where
  "is_alpha_us c \<longleftrightarrow>
     (CHR ''a'' \<le> c \<and> c \<le> CHR ''z'') \<or> (CHR ''A'' \<le> c \<and> c \<le> CHR ''Z'') \<or> c = CHR ''_''"

definition is_digit :: "char \<Rightarrow> bool" where
  "is_digit c \<longleftrightarrow> CHR ''0'' \<le> c \<and> c \<le> CHR ''9''"

text \<open>\<open>[a-zA-Z0-9_-]\<close>\<close>

definition is_name_char :: "char \<Rightarrow> bool" where
  "is_name_char c \<longleftrightarrow> is_alpha_us c \<or> is_digit c \<or> c = CHR ''-''"

text \<open>\<open>\w\<close> (in the classic locale: letters, digits and the underscore)\<close>

definition is_word_char :: "char \<Rightarrow> bool" where
  "is_word_char c \<longleftrightarrow> is_alpha_us c \<or> is_digit c"

text \<open>\<open>\w[a-zA-Z0-9_-]*\<close>\<close>

definition valid_positional_name :: "string \<Rightarrow> bool" where
  "valid_positional_name name =
     (case c_str name of
        [] \<Rightarrow> False
      | c # cs \<Rightarrow> is_word_char c \<and> list_all is_name_char cs)"

text \<open>\<open>[a-zA-Z_][a-zA-Z0-9_-]+\<close>, the part shared by the two expressions for long names\<close>

definition long_name_body :: "string \<Rightarrow> bool" where
  "long_name_body s =
     (case s of
        c # d # ds \<Rightarrow> is_alpha_us c \<and> list_all is_name_char (d # ds)
      | _ \<Rightarrow> False)"

text \<open>
  \<open>-?\<close> in front of \<open>[a-zA-Z_]\<close>: a dash is taken when there is one, since the class that
  follows does not contain the dash.
\<close>

definition strip_opt_dash :: "string \<Rightarrow> string" where
  "strip_opt_dash s = (case s of c # cs \<Rightarrow> if c = CHR ''-'' then cs else s | [] \<Rightarrow> [])"

text \<open>\<open>-([a-zA-Z_]|-?[a-zA-Z_][a-zA-Z0-9_-]+)\<close>\<close>

definition valid_option_name :: "string \<Rightarrow> bool" where
  "valid_option_name name =
     (case c_str name of
        [] \<Rightarrow> False
      | c # rest \<Rightarrow>
          c = CHR ''-'' \<and>
          ((case rest of [d] \<Rightarrow> is_alpha_us d | _ \<Rightarrow> False) \<or> long_name_body (strip_opt_dash rest)))"

text \<open>\<open>--?([a-zA-Z_][a-zA-Z0-9_-]+)\<close>: the captured group, or the empty string\<close>

definition format_option_name :: "string \<Rightarrow> string" where
  "format_option_name name =
     (case c_str name of
        [] \<Rightarrow> []
      | c # rest \<Rightarrow>
          if c = CHR ''-'' \<and> long_name_body (strip_opt_dash rest) then strip_opt_dash rest else [])"

text \<open>\<open>-([a-zA-Z_])\<close>: the captured group, or the empty string\<close>

definition format_flag_name :: "string \<Rightarrow> string" where
  "format_flag_name name =
     (case c_str name of
        [c, d] \<Rightarrow> if c = CHR ''-'' \<and> is_alpha_us d then [d] else []
      | _ \<Rightarrow> [])"

section \<open>Declaring arguments\<close>

text \<open>
  In the three declaration functions every \<open>throw\<close> comes before the first assignment to a
  member, so a call that throws leaves the object as it was.
\<close>

definition add_positional :: "parser \<Rightarrow> string \<Rightarrow> string \<Rightarrow> parser outcome" where
  "add_positional p name help_text =
     (if \<not> valid_positional_name name then Throws (Invalid_positional_name name)
      else if m_positional_args p name \<noteq> None then Throws (Duplicate_positional_name name)
      else if m_optional_args p name \<noteq> None then Throws (Positional_conflicts_optional name)
      else Returns (p\<lparr>
        m_positional_args := (m_positional_args p)
          (name \<mapsto> \<lparr>pos_value = [], pos_help_text = help_text\<rparr>),
        m_positional_order := m_positional_order p @ [name]\<rparr>))"

text \<open>\<open>add_optional(long_name, type, help_text)\<close>; the result is the reference name.\<close>

definition add_optional ::
  "parser \<Rightarrow> string \<Rightarrow> Optional_Type \<Rightarrow> string \<Rightarrow> (parser \<times> string) outcome" where
  "add_optional p long_name type help_text =
     (let formatted_name = format_option_name long_name in
      if formatted_name = [] then Throws (Invalid_optional_name long_name)
      else if m_optional_args p formatted_name \<noteq> None
        then Throws (Duplicate_optional_name formatted_name)
      else if m_positional_args p formatted_name \<noteq> None
        then Throws (Optional_conflicts_positional formatted_name)
      else Returns (p\<lparr>
        m_optional_args := (m_optional_args p)
          (formatted_name \<mapsto>
             \<lparr>opt_flag = CHR '' '', opt_type = type, opt_values = [], opt_help_text = help_text\<rparr>),
        m_optional_order := m_optional_order p @ [formatted_name]\<rparr>, formatted_name))"

text \<open>
  \<open>m_optional_args[key].flag = c\<close>: \<open>operator[]\<close> of the map inserts a value-initialised
  \<open>Optional_Info\<close> when the key is missing.
\<close>

definition set_flag :: "(string \<rightharpoonup> Optional_Info) \<Rightarrow> string \<Rightarrow> char \<Rightarrow> (string \<rightharpoonup> Optional_Info)" where
  "set_flag m key c =
     m(key \<mapsto> (case m key of
         Some info \<Rightarrow> info\<lparr>opt_flag := c\<rparr>
       | None \<Rightarrow> \<lparr>opt_flag = c, opt_type = FLAG, opt_values = [], opt_help_text = []\<rparr>))"

text \<open>\<open>add_optional(flag, long_name, type, help_text)\<close>\<close>

definition add_optional_flag ::
  "parser \<Rightarrow> string \<Rightarrow> string \<Rightarrow> Optional_Type \<Rightarrow> string \<Rightarrow> (parser \<times> string) outcome" where
  "add_optional_flag p flag long_name type help_text =
     (case format_flag_name flag of
        [] \<Rightarrow> Throws (Invalid_flag_name flag)
      | c # _ \<Rightarrow>
          if m_flags p c \<noteq> None then Throws (Duplicate_flag_name flag)
          else (case add_optional p long_name type help_text of
                  Throws e \<Rightarrow> Throws e
                | Exits \<Rightarrow> Exits
                | Returns (p1, ref_name) \<Rightarrow>
                    Returns (p1\<lparr>
                      m_flags := (m_flags p1)(c \<mapsto> ref_name),
                      m_optional_args := set_flag (m_optional_args p1) ref_name c\<rparr>, ref_name)))"

text \<open>The members before the body of the constructor runs.\<close>

definition empty_parser :: parser where
  "empty_parser = \<lparr>
     m_scriptname = [], m_positional_order = [], m_positional_args = Map.empty,
     m_optional_order = [], m_optional_args = Map.empty, m_flags = Map.empty\<rparr>"

text \<open>\<open>Argument_Parser() { add_optional("-h", "--help", Optional_Type::FLAG); }\<close>\<close>

definition Argument_Parser :: "parser outcome" where
  "Argument_Parser =
     (case add_optional_flag empty_parser ''-h'' ''--help'' FLAG [] of
        Returns (p, _) \<Rightarrow> Returns p
      | Throws e \<Rightarrow> Throws e
      | Exits \<Rightarrow> Exits)"

section \<open>Scanning the command line\<close>

definition lookup_formatted_option_name :: "parser \<Rightarrow> string \<Rightarrow> string outcome" where
  "lookup_formatted_option_name p option_name =
     (case format_flag_name option_name of
        c # _ \<Rightarrow>
          (case m_flags p c of
             None \<Rightarrow> Throws (Invalid_flag option_name)
           | Some ref_name \<Rightarrow> Returns ref_name)
      | [] \<Rightarrow> Returns (format_option_name option_name))"

text \<open>
  \<open>parse_optional_arg\<close> works on the copy \<open>optional_args\<close> of the map that \<open>parse_args\<close>
  hands over by reference, and returns the index of the last entry of \<open>argv\<close> it has read.
  The function result is the changed copy together with that index.
\<close>

definition parse_optional_arg ::
  "parser \<Rightarrow> (string \<rightharpoonup> Optional_Info) \<Rightarrow> string \<Rightarrow> nat \<Rightarrow> nat \<Rightarrow> string list
     \<Rightarrow> ((string \<rightharpoonup> Optional_Info) \<times> nat) outcome" where
  "parse_optional_arg p optional_args option_name argi argc argv =
     (case lookup_formatted_option_name p option_name of
        Throws e \<Rightarrow> Throws e
      | Exits \<Rightarrow> Exits
      | Returns formatted_option_name \<Rightarrow>
          if formatted_option_name = ''help'' then Exits
          else (case optional_args formatted_option_name of
             None \<Rightarrow> Throws (Invalid_option option_name)
           | Some info \<Rightarrow>
               if opt_type info = FLAG then
                 (if opt_values info \<noteq> [] then Throws (Only_once option_name)
                  else Returns (optional_args(formatted_option_name \<mapsto>
                         info\<lparr>opt_values := opt_values info @ [''true'']\<rparr>), argi))
               else if Suc argi = argc then Throws (Requires_value option_name)
               else
                 (let string_val = argv ! Suc argi in
                  if valid_option_name string_val then Throws (Requires_value option_name)
                  else if opt_type info \<noteq> APPEND \<and> opt_values info \<noteq> []
                    then Throws (Only_once option_name)
                  else Returns (optional_args(formatted_option_name \<mapsto>
                         info\<lparr>opt_values := opt_values info @ [string_val]\<rparr>), Suc argi))))"

text \<open>
  The \<open>for\<close> loop of \<open>parse_args\<close> over \<open>argi\<close>, with the local variables \<open>optional_args\<close> and
  \<open>positional_args\<close> as accumulators.
\<close>

function scan_loop ::
  "parser \<Rightarrow> (string \<rightharpoonup> Optional_Info) \<Rightarrow> string list \<Rightarrow> nat \<Rightarrow> nat \<Rightarrow> string list
     \<Rightarrow> ((string \<rightharpoonup> Optional_Info) \<times> string list) outcome" where
  "scan_loop p optional_args positional_args argi argc argv =
     (if argi < argc then
        (let string_arg = argv ! argi in
         if valid_option_name string_arg then
           (case parse_optional_arg p optional_args string_arg argi argc argv of
              Throws e \<Rightarrow> Throws e
            | Exits \<Rightarrow> Exits
            | Returns (optional_args', argi') \<Rightarrow>
                scan_loop p optional_args' positional_args (Suc argi') argc argv)
         else scan_loop p optional_args (positional_args @ [argv ! argi]) (Suc argi) argc argv)
      else Returns (optional_args, positional_args))"
  by pat_completeness auto
termination
  apply (relation "measure (\<lambda>(p, optional_args, positional_args, argi, argc, argv). argc - argi)")
    apply simp
   apply (auto simp: parse_optional_arg_def Let_def
      split: outcome.splits option.splits if_splits)
  done

text \<open>
  \<open>m_positional_args[key].value = v\<close>: \<open>operator[]\<close> inserts a value-initialised
  \<open>Positional_Info\<close> when the key is missing.
\<close>

definition set_value ::
  "(string \<rightharpoonup> Positional_Info) \<Rightarrow> string \<Rightarrow> string \<Rightarrow> (string \<rightharpoonup> Positional_Info)" where
  "set_value m key v =
     m(key \<mapsto> (case m key of
         Some info \<Rightarrow> info\<lparr>pos_value := v\<rparr>
       | None \<Rightarrow> \<lparr>pos_value = v, pos_help_text = []\<rparr>))"

text \<open>The first loop over \<open>pos_idx\<close>, from \<open>0\<close> to \<open>m_positional_order.size()\<close>.\<close>

definition assign_positionals :: "parser \<Rightarrow> string list \<Rightarrow> parser" where
  "assign_positionals p positional_args =
     fold (\<lambda>pos_idx q.
             q\<lparr>m_positional_args :=
                 set_value (m_positional_args q) (m_positional_order q ! pos_idx)
                   (positional_args ! pos_idx)\<rparr>)
       [0 ..< length (m_positional_order p)] p"

text \<open>The second loop over \<open>pos_idx\<close>, up to \<open>positional_args.size()\<close>, which rewrites \<open>argv\<close>.\<close>

definition rethread :: "nat \<Rightarrow> string list \<Rightarrow> string list \<Rightarrow> string list" where
  "rethread n positional_args argv =
     fold (\<lambda>pos_idx av. av[pos_idx - n + 1 := positional_args ! pos_idx])
       [n ..< length positional_args] argv"

text \<open>
  \<open>parse_args(argc, argv)\<close>. The function reads \<open>argv[0]\<close> before anything else, so the
  vector is given as its first entry \<open>argv0\<close> and its other \<open>argc - 1\<close> entries \<open>args\<close>.
  The result is the object after the call together with the outcome; a call that returns
  yields the new values of the two reference parameters \<open>argc\<close> and \<open>argv\<close>.
\<close>

definition parse_args ::
  "parser \<Rightarrow> string \<Rightarrow> string list \<Rightarrow> parser \<times> (nat \<times> string list) outcome" where
  "parse_args p argv0 args =
     (let argv = argv0 # args;
          argc = length argv;
          p1 = p\<lparr>m_scriptname := argv0\<rparr>
      in case scan_loop p1 (m_optional_args p1) [] 1 argc argv of
           Throws e \<Rightarrow> (p1, Throws e)
         | Exits \<Rightarrow> (p1, Exits)
         | Returns (optional_args, positional_args) \<Rightarrow>
             if length positional_args < length (m_positional_order p1)
             then (p1, Throws (Requires_positional
                                 (m_positional_order p1 ! length positional_args)))
             else
               (let p2 = assign_positionals (p1\<lparr>m_optional_args := optional_args\<rparr>) positional_args;
                    n = length (m_positional_order p2)
                in (p2, Returns (length positional_args - n + 1,
                                 rethread n positional_args argv))))"

section \<open>Retrieving values\<close>

definition has_arg :: "parser \<Rightarrow> string \<Rightarrow> bool outcome" where
  "has_arg p name =
     (case m_optional_args p name of
        None \<Rightarrow> Throws (No_optional_by_name name)
      | Some info \<Rightarrow> Returns (opt_values info \<noteq> []))"

definition arg_count :: "parser \<Rightarrow> string \<Rightarrow> nat outcome" where
  "arg_count p name =
     (case m_optional_args p name of
        None \<Rightarrow> Throws (No_optional_by_name name)
      | Some info \<Rightarrow> Returns (length (opt_values info)))"

text \<open>\<open>optional_arg(it, idx)\<close>, the iterator given as the key and the value it points to.\<close>

definition optional_arg :: "string \<Rightarrow> Optional_Info \<Rightarrow> nat \<Rightarrow> string outcome" where
  "optional_arg name info idx =
     (if idx < length (opt_values info) then Returns (opt_values info ! idx)
      else if opt_values info = [] then Returns (if opt_type info = FLAG then ''false'' else [])
      else Throws (Index_out_of_range idx name))"

subsection \<open>Conversion to the requested type\<close>

text \<open>
  The template parameter \<open>T\<close> of \<open>arg\<close>, \<open>arg_at\<close> and \<open>parse_string_arg\<close>: \<open>bool\<close>, \<open>char\<close>,
  an unsigned or a signed integer type of the given width in bits, a floating-point type,
  or \<open>std::string\<close>.

  A value of a floating-point type is a rational number, an infinity (with its sign: \<open>True\<close>
  for the negative one) or a NaN. The operators \<open><\<close> and \<open>>\<close> on these values are those of
  the floating-point types: every comparison with a NaN is false.
\<close>

datatype ld = LD_finite rat | LD_inf bool | LD_nan

fun ld_less :: "ld \<Rightarrow> ld \<Rightarrow> bool" where
  "ld_less LD_nan y = False"
| "ld_less x LD_nan = False"
| "ld_less (LD_finite a) (LD_finite b) = (a < b)"
| "ld_less (LD_finite a) (LD_inf negative) = (\<not> negative)"
| "ld_less (LD_inf negative) (LD_finite b) = negative"
| "ld_less (LD_inf negative) (LD_inf negative') = (negative \<and> \<not> negative')"

instantiation ld :: ord
begin

definition less_ld :: "ld \<Rightarrow> ld \<Rightarrow> bool" where
  "less_ld x y = ld_less x y"

definition less_eq_ld :: "ld \<Rightarrow> ld \<Rightarrow> bool" where
  "less_eq_ld x y = (ld_less x y \<or> (x = y \<and> x \<noteq> LD_nan))"

instance ..

end

text \<open>
  What \<open>std::stold\<close> reads from a string (the subject sequence of \<open>strtold\<close>): the sign
  (\<open>True\<close> for a minus sign) and a decimal numeral, given by the digits before and after the
  point and the exponent of ten, or a hexadecimal numeral, given by the hexadecimal digits
  before and after the point and the exponent of two, or an infinity, or a NaN with the
  characters between its parentheses.
\<close>

datatype fnumeral =
    F_dec bool string string int
  | F_hex bool string string int
  | F_inf bool
  | F_nan bool string

text \<open>
  A floating-point type \<open>T\<close> of the platform. What \<open>strtold\<close> makes of a numeral depends on
  the format of \<open>long double\<close>: \<open>fl_strtold\<close> gives the value, or \<open>None\<close> when \<open>strtold\<close>
  reports a range error (\<open>ERANGE\<close>). \<open>fl_lowest\<close> and \<open>fl_max\<close> are
  \<open>std::numeric_limits<T>::lowest()\<close> and \<open>max()\<close>, and \<open>fl_narrow\<close> is the conversion from
  \<open>long double\<close> to \<open>T\<close> of a value within these limits.
\<close>

record floating =
  fl_strtold :: "fnumeral \<Rightarrow> ld option"
  fl_lowest :: ld
  fl_max :: ld
  fl_narrow :: "ld \<Rightarrow> ld"

datatype arg_type =
  T_bool | T_char | T_unsigned nat | T_signed nat | T_floating floating | T_string

datatype arg_value =
  V_bool bool | V_char char | V_unsigned nat | V_signed int | V_floating ld | V_string string

datatype conv_exn = invalid_argument | out_of_range

text \<open>
  \<open>std::stoll\<close> and \<open>std::stoull\<close> of the standard library, called with the string alone
  (base 10, no position returned): they skip white space, read an optional sign and the
  longest run of decimal digits, and ignore what follows. No digit is
  \<open>std::invalid_argument\<close>, a value outside of \<open>long long\<close> or \<open>unsigned long long\<close>
  (64 bits) is \<open>std::out_of_range\<close>; \<open>std::stoull\<close> negates a value with a minus sign in
  the unsigned type.
\<close>

definition isspace :: "char \<Rightarrow> bool" where
  "isspace c \<longleftrightarrow> c = CHR '' '' \<or> (CHR 0x09 \<le> c \<and> c \<le> CHR 0x0D)"

definition digits_value :: "string \<Rightarrow> int" where
  "digits_value ds = foldl (\<lambda>n c. 10 * n + (of_char c - of_char CHR ''0'')) 0 ds"

definition sign_and_digits :: "string \<Rightarrow> bool \<times> string" where
  "sign_and_digits s =
     (let s1 = dropWhile isspace (c_str s) in
      case s1 of
        [] \<Rightarrow> (False, [])
      | c # r \<Rightarrow>
          if c = CHR ''-'' then (True, takeWhile is_digit r)
          else if c = CHR ''+'' then (False, takeWhile is_digit r)
          else (False, takeWhile is_digit s1))"

definition std_stoll :: "string \<Rightarrow> conv_exn + int" where
  "std_stoll s =
     (case sign_and_digits s of (neg, ds) \<Rightarrow>
        if ds = [] then Inl invalid_argument
        else (let v = (if neg then - digits_value ds else digits_value ds) in
              if v < - (2 ^ 63) \<or> v > 2 ^ 63 - 1 then Inl out_of_range else Inr v))"

definition std_stoull :: "string \<Rightarrow> conv_exn + int" where
  "std_stoull s =
     (case sign_and_digits s of (neg, ds) \<Rightarrow>
        if ds = [] then Inl invalid_argument
        else (let v = digits_value ds in
              if v > 2 ^ 64 - 1 then Inl out_of_range
              else Inr (if neg then (2 ^ 64 - v) mod 2 ^ 64 else v)))"

text \<open>
  \<open>std::stold\<close> of the standard library, called with the string alone. It skips white space
  and reads an optional sign and the longest initial part of what follows that is one of
  \<^item> decimal digits with at most one point among them and at least one digit, and then, when
    present in full, an exponent: \<open>e\<close> or \<open>E\<close>, an optional sign and decimal digits;
  \<^item> \<open>0x\<close> or \<open>0X\<close>, hexadecimal digits with at most one point among them and at least one
    digit, and then, when present in full, an exponent: \<open>p\<close> or \<open>P\<close>, an optional sign and
    decimal digits;
  \<^item> \<open>inf\<close> or \<open>infinity\<close>, in letters of either case;
  \<^item> \<open>nan\<close>, in letters of either case, and then, when present in full, a parenthesis with
    letters, digits and underscores in it.

  It ignores what follows. Nothing of this form is \<open>std::invalid_argument\<close>, and a range
  error of \<open>strtold\<close> is \<open>std::out_of_range\<close>.
\<close>

definition is_xdigit :: "char \<Rightarrow> bool" where
  "is_xdigit c \<longleftrightarrow>
     is_digit c \<or> (CHR ''a'' \<le> c \<and> c \<le> CHR ''f'') \<or> (CHR ''A'' \<le> c \<and> c \<le> CHR ''F'')"

text \<open>Whether the string starts with the given small letters, in either case.\<close>

fun starts_with_letters :: "string \<Rightarrow> string \<Rightarrow> bool" where
  "starts_with_letters [] s = True"
| "starts_with_letters (l # ls) [] = False"
| "starts_with_letters (l # ls) (c # cs) =
     ((c = l \<or> (of_char c + 32 = (of_char l :: nat))) \<and> starts_with_letters ls cs)"

text \<open>
  Digits with at most one point among them, at least one digit: the digits before the point,
  the digits after it, and the rest of the string.
\<close>

definition mantissa :: "(char \<Rightarrow> bool) \<Rightarrow> string \<Rightarrow> (string \<times> string \<times> string) option" where
  "mantissa digit r =
     (let i = takeWhile digit r; r1 = dropWhile digit r in
      case r1 of
        [] \<Rightarrow> if i = [] then None else Some (i, [], r1)
      | c # r2 \<Rightarrow>
          if c = CHR ''.'' then
            (let f = takeWhile digit r2 in
             if i = [] \<and> f = [] then None else Some (i, f, dropWhile digit r2))
          else if i = [] then None else Some (i, [], r1))"

text \<open>The value of the exponent at the start of the string; 0 when there is none.\<close>

definition exponent_part :: "char \<Rightarrow> char \<Rightarrow> string \<Rightarrow> int" where
  "exponent_part small capital r =
     (case r of
        [] \<Rightarrow> 0
      | c # r1 \<Rightarrow>
          if c = small \<or> c = capital then
            (case r1 of
               [] \<Rightarrow> 0
             | s # r2 \<Rightarrow>
                 if s = CHR ''-'' then
                   (if takeWhile is_digit r2 = [] then 0 else - digits_value (takeWhile is_digit r2))
                 else if s = CHR ''+'' then
                   (if takeWhile is_digit r2 = [] then 0 else digits_value (takeWhile is_digit r2))
                 else
                   (if takeWhile is_digit r1 = [] then 0 else digits_value (takeWhile is_digit r1)))
          else 0)"

text \<open>The characters of a parenthesis after \<open>nan\<close>; none when there is no full parenthesis.\<close>

definition nan_chars :: "string \<Rightarrow> string" where
  "nan_chars r =
     (case r of
        [] \<Rightarrow> []
      | c # r1 \<Rightarrow>
          if c = CHR ''('' then
            (case dropWhile is_word_char r1 of
               [] \<Rightarrow> []
             | d # _ \<Rightarrow> if d = CHR '')'' then takeWhile is_word_char r1 else [])
          else [])"

text \<open>The numeral at the start of the string that follows the sign.\<close>

definition float_body :: "bool \<Rightarrow> string \<Rightarrow> fnumeral option" where
  "float_body negative r =
     (case (case r of
              z # x # r2 \<Rightarrow>
                if z = CHR ''0'' \<and> (x = CHR ''x'' \<or> x = CHR ''X'') then mantissa is_xdigit r2
                else None
            | _ \<Rightarrow> None) of
        Some (i, f, rest) \<Rightarrow> Some (F_hex negative i f (exponent_part CHR ''p'' CHR ''P'' rest))
      | None \<Rightarrow>
          (case mantissa is_digit r of
             Some (i, f, rest) \<Rightarrow>
               Some (F_dec negative i f (exponent_part CHR ''e'' CHR ''E'' rest))
           | None \<Rightarrow>
               if starts_with_letters ''inf'' r then Some (F_inf negative)
               else if starts_with_letters ''nan'' r then Some (F_nan negative (nan_chars (drop 3 r)))
               else None))"

definition float_subject :: "string \<Rightarrow> fnumeral option" where
  "float_subject s =
     (let s1 = dropWhile isspace (c_str s) in
      case s1 of
        [] \<Rightarrow> None
      | c # r \<Rightarrow>
          if c = CHR ''-'' then float_body True r
          else if c = CHR ''+'' then float_body False r
          else float_body False s1)"

definition std_stold :: "floating \<Rightarrow> string \<Rightarrow> conv_exn + ld" where
  "std_stold fl s =
     (case float_subject s of
        None \<Rightarrow> Inl invalid_argument
      | Some subject \<Rightarrow>
          (case fl_strtold fl subject of
             None \<Rightarrow> Inl out_of_range
           | Some x \<Rightarrow> Inr x))"

text \<open>The private overload \<open>stoull\<close> of the class.\<close>

definition stoull :: "string \<Rightarrow> conv_exn + int" where
  "stoull v = (if CHR ''-'' \<in> set v then Inl out_of_range else std_stoull v)"

text \<open>
  \<open>parse_numeric_arg<T>\<close>, given the result of \<open>convert_func(value)\<close> and
  \<open>std::numeric_limits<T>::lowest()\<close> and \<open>max()\<close>.
\<close>

definition parse_numeric_arg ::
  "string \<Rightarrow> conv_exn + ('a :: ord) \<Rightarrow> 'a \<Rightarrow> 'a \<Rightarrow> 'a outcome" where
  "parse_numeric_arg name converted lowest max_val =
     (case converted of
        Inl invalid_argument \<Rightarrow> Throws (Must_be_integral name)
      | Inl out_of_range \<Rightarrow> Throws (Must_be_in_range name)
      | Inr n_value \<Rightarrow>
          if n_value < lowest \<or> n_value > max_val then Throws (Must_be_in_range name)
          else Returns n_value)"

text \<open>
  \<open>map_outcome\<close>, the map function of the type \<open>outcome\<close>, applies a function to the value
  that a call returns: here the conversion of the number to the type \<open>T\<close>.
\<close>

fun parse_string_arg :: "arg_type \<Rightarrow> string \<Rightarrow> string \<Rightarrow> arg_value outcome" where
  "parse_string_arg T_bool name v =
     (if v = ''true'' then Returns (V_bool True)
      else if v = ''false'' then Returns (V_bool False)
      else Throws (Must_be_true_or_false name))"
| "parse_string_arg T_char name v =
     (case v of [c] \<Rightarrow> Returns (V_char c) | _ \<Rightarrow> Throws (Must_be_single_character name))"
| "parse_string_arg (T_unsigned w) name v =
     map_outcome (\<lambda>n. V_unsigned (nat n))
       (parse_numeric_arg name (stoull v) 0 (2 ^ w - 1))"
| "parse_string_arg (T_signed w) name v =
     map_outcome V_signed
       (parse_numeric_arg name (std_stoll v) (- (2 ^ (w - 1))) (2 ^ (w - 1) - 1))"
| "parse_string_arg (T_floating fl) name v =
     map_outcome (\<lambda>x. V_floating (fl_narrow fl x))
       (parse_numeric_arg name (std_stold fl v) (fl_lowest fl) (fl_max fl))"
| "parse_string_arg T_string name v = Returns (V_string v)"

text \<open>The private \<open>arg_at(name, idx, has_default, default_val)\<close>.\<close>

definition arg_at_impl ::
  "parser \<Rightarrow> arg_type \<Rightarrow> string \<Rightarrow> nat \<Rightarrow> bool \<Rightarrow> arg_value \<Rightarrow> arg_value outcome" where
  "arg_at_impl p T name idx has_default default_val =
     (case m_optional_args p name of
        Some info \<Rightarrow>
          (case optional_arg name info idx of
             Throws e \<Rightarrow> Throws e
           | Exits \<Rightarrow> Exits
           | Returns v \<Rightarrow>
               if v = [] then
                 (if \<not> has_default then Throws (No_value_no_default name)
                  else Returns default_val)
               else parse_string_arg T name v)
      | None \<Rightarrow>
          (case m_positional_args p name of
             None \<Rightarrow> Throws (No_argument_by_name name)
           | Some info \<Rightarrow> parse_string_arg T name (pos_value info)))"

text \<open>\<open>T{}\<close>, the default value that the public \<open>arg_at(name, idx)\<close> passes on.\<close>

fun value_init :: "arg_type \<Rightarrow> arg_value" where
  "value_init T_bool = V_bool False"
| "value_init T_char = V_char (CHR 0x00)"
| "value_init (T_unsigned w) = V_unsigned 0"
| "value_init (T_signed w) = V_signed 0"
| "value_init (T_floating fl) = V_floating (LD_finite 0)"
| "value_init T_string = V_string []"

text \<open>The four public overloads: \<open>arg_at\<close> and \<open>arg\<close>, each without and with \<open>default_val\<close>.\<close>

definition arg_at :: "parser \<Rightarrow> arg_type \<Rightarrow> string \<Rightarrow> nat \<Rightarrow> arg_value outcome" where
  "arg_at p T name idx = arg_at_impl p T name idx False (value_init T)"

definition arg_at_default ::
  "parser \<Rightarrow> arg_type \<Rightarrow> string \<Rightarrow> nat \<Rightarrow> arg_value \<Rightarrow> arg_value outcome" where
  "arg_at_default p T name idx default_val = arg_at_impl p T name idx True default_val"

definition arg :: "parser \<Rightarrow> arg_type \<Rightarrow> string \<Rightarrow> arg_value outcome" where
  "arg p T name = arg_at p T name 0"

definition arg_default :: "parser \<Rightarrow> arg_type \<Rightarrow> string \<Rightarrow> arg_value \<Rightarrow> arg_value outcome" where
  "arg_default p T name default_val = arg_at_default p T name 0 default_val"

text \<open>
  The string that \<open>arg_at\<close> has for a name and an index, when there is one: the value at the
  index of an optional argument, or the value of a positional argument, whatever the index.
\<close>

definition stored_value :: "parser \<Rightarrow> string \<Rightarrow> nat \<Rightarrow> string option" where
  "stored_value p name idx =
     (case m_optional_args p name of
        Some info \<Rightarrow> if idx < length (opt_values info) then Some (opt_values info ! idx) else None
      | None \<Rightarrow> map_option pos_value (m_positional_args p name))"

section \<open>Registries used as examples\<close>

text \<open>Sequencing of calls: the second call is made when the first one returns.\<close>

definition then_call :: "'a outcome \<Rightarrow> ('a \<Rightarrow> 'b outcome) \<Rightarrow> 'b outcome" where
  "then_call r f = (case r of Returns x \<Rightarrow> f x | Throws e \<Rightarrow> Throws e | Exits \<Rightarrow> Exits)"

text \<open>The object that the constructor leaves: the option \<open>--help\<close> with the flag \<open>-h\<close>.\<close>

definition fresh_parser :: parser where
  "fresh_parser = \<lparr>
     m_scriptname = [], m_positional_order = [], m_positional_args = Map.empty,
     m_optional_order = [''help''],
     m_optional_args = [''help'' \<mapsto>
       \<lparr>opt_flag = CHR ''h'', opt_type = FLAG, opt_values = [], opt_help_text = []\<rparr>],
     m_flags = [CHR ''h'' \<mapsto> ''help'']\<rparr>"

text \<open>
  After \<open>add_optional("-v", "--verbose", FLAG)\<close>, \<open>add_optional("-o", "--output", SINGLE)\<close>,
  \<open>add_optional("--tag", APPEND)\<close> and \<open>add_optional("--count", SINGLE)\<close> on a new object.
\<close>

definition opts_parser :: parser where
  "opts_parser = \<lparr>
     m_scriptname = [], m_positional_order = [], m_positional_args = Map.empty,
     m_optional_order = [''help'', ''verbose'', ''output'', ''tag'', ''count''],
     m_optional_args = [
       ''help'' \<mapsto>
         \<lparr>opt_flag = CHR ''h'', opt_type = FLAG, opt_values = [], opt_help_text = []\<rparr>,
       ''verbose'' \<mapsto>
         \<lparr>opt_flag = CHR ''v'', opt_type = FLAG, opt_values = [], opt_help_text = []\<rparr>,
       ''output'' \<mapsto>
         \<lparr>opt_flag = CHR ''o'', opt_type = SINGLE, opt_values = [], opt_help_text = []\<rparr>,
       ''tag'' \<mapsto>
         \<lparr>opt_flag = CHR '' '', opt_type = APPEND, opt_values = [], opt_help_text = []\<rparr>,
       ''count'' \<mapsto>
         \<lparr>opt_flag = CHR '' '', opt_type = SINGLE, opt_values = [], opt_help_text = []\<rparr>],
     m_flags = [CHR ''h'' \<mapsto> ''help'', CHR ''v'' \<mapsto> ''verbose'', CHR ''o'' \<mapsto> ''output'']\<rparr>"

text \<open>After \<open>add_optional("--tag", APPEND)\<close> alone on a new object.\<close>

definition tag_parser :: parser where
  "tag_parser = fresh_parser\<lparr>
     m_optional_order := [''help'', ''tag''],
     m_optional_args := [
       ''help'' \<mapsto>
         \<lparr>opt_flag = CHR ''h'', opt_type = FLAG, opt_values = [], opt_help_text = []\<rparr>,
       ''tag'' \<mapsto>
         \<lparr>opt_flag = CHR '' '', opt_type = APPEND, opt_values = [], opt_help_text = []\<rparr>]\<rparr>"

text \<open>After \<open>add_positional("src")\<close> and \<open>add_positional("dst")\<close> on \<open>opts_parser\<close>.\<close>

definition files_parser :: parser where
  "files_parser = opts_parser\<lparr>
     m_positional_order := [''src'', ''dst''],
     m_positional_args := [
       ''src'' \<mapsto> \<lparr>pos_value = [], pos_help_text = []\<rparr>,
       ''dst'' \<mapsto> \<lparr>pos_value = [], pos_help_text = []\<rparr>]\<rparr>"

text \<open>
  An example of a floating-point type: \<open>double\<close> with its limits, on a platform taken to be
  exact, where \<open>strtold\<close> gives every numeral its value as a rational number, without rounding
  and without range errors, and the conversion to \<open>double\<close> changes nothing.
\<close>

definition xdigit_value :: "char \<Rightarrow> int" where
  "xdigit_value c =
     (if is_digit c then of_char c - of_char CHR ''0''
      else if CHR ''a'' \<le> c \<and> c \<le> CHR ''f'' then of_char c - of_char CHR ''a'' + 10
      else of_char c - of_char CHR ''A'' + 10)"

definition xdigits_value :: "string \<Rightarrow> int" where
  "xdigits_value ds = foldl (\<lambda>n c. 16 * n + xdigit_value c) 0 ds"

definition scaled :: "int \<Rightarrow> int \<Rightarrow> int \<Rightarrow> rat" where
  "scaled m b e = (if 0 \<le> e then of_int m * of_int b ^ nat e else of_int m / of_int b ^ nat (- e))"

fun exact_value :: "fnumeral \<Rightarrow> ld" where
  "exact_value (F_dec negative i f e) =
     LD_finite ((if negative then - 1 else 1) *
       scaled (digits_value (i @ f)) 10 (e - int (length f)))"
| "exact_value (F_hex negative i f e) =
     LD_finite ((if negative then - 1 else 1) *
       scaled (xdigits_value (i @ f)) 2 (e - 4 * int (length f)))"
| "exact_value (F_inf negative) = LD_inf negative"
| "exact_value (F_nan negative cs) = LD_nan"

definition exact_double :: floating where
  "exact_double = \<lparr>
     fl_strtold = (\<lambda>subject. Some (exact_value subject)),
     fl_lowest = LD_finite (- (2 ^ 1024 - 2 ^ 971)),
     fl_max = LD_finite (2 ^ 1024 - 2 ^ 971),
     fl_narrow = (\<lambda>x. x)\<rparr>"

text \<open>
  What the declaration functions keep true of the positional arguments: no name stands twice
  in the declaration order, the names in the order are the keys of the map, and none of
  them is the reference name of an optional argument.
\<close>

definition registry_inv :: "parser \<Rightarrow> bool" where
  "registry_inv p \<longleftrightarrow>
     distinct (m_positional_order p) \<and>
     set (m_positional_order p) = dom (m_positional_args p) \<and>
     list_all (\<lambda>name. m_optional_args p name = None) (m_positional_order p)"

section \<open>Evaluation rules\<close>

declare scan_loop.simps [simp del]

lemma scan_loop_done:
  "\<not> argi < argc \<Longrightarrow> scan_loop p oa pa argi argc argv = Returns (oa, pa)"
  by (subst scan_loop.simps) simp

lemma scan_loop_positional:
  "argi < argc \<Longrightarrow> \<not> valid_option_name (argv ! argi) \<Longrightarrow>
   scan_loop p oa pa argi argc argv = scan_loop p oa (pa @ [argv ! argi]) (Suc argi) argc argv"
  by (subst scan_loop.simps) simp

lemma scan_loop_option:
  "argi < argc \<Longrightarrow> valid_option_name (argv ! argi) \<Longrightarrow>
   scan_loop p oa pa argi argc argv =
     (case parse_optional_arg p oa (argv ! argi) argi argc argv of
        Throws e \<Rightarrow> Throws e
      | Exits \<Rightarrow> Exits
      | Returns (oa', argi') \<Rightarrow> scan_loop p oa' pa (Suc argi') argc argv)"
  by (subst scan_loop.simps) simp

lemmas lex_defs = c_str_def is_alpha_us_def is_digit_def is_name_char_def is_word_char_def
  valid_positional_name_def long_name_body_def strip_opt_dash_def valid_option_name_def
  format_option_name_def format_flag_name_def Let_def

lemmas scan_defs = parse_args_def scan_loop_done scan_loop_positional scan_loop_option
  parse_optional_arg_def lookup_formatted_option_name_def assign_positionals_def rethread_def
  set_value_def

lemmas conv_defs = isspace_def digits_value_def sign_and_digits_def std_stoll_def
  std_stoull_def stoull_def parse_numeric_arg_def

lemmas float_defs = is_xdigit_def mantissa_def exponent_part_def nan_chars_def float_body_def
  float_subject_def std_stold_def xdigit_value_def xdigits_value_def scaled_def exact_double_def
  less_ld_def

lemmas get_defs = has_arg_def arg_count_def optional_arg_def arg_at_impl_def arg_at_def
  arg_at_default_def arg_def arg_default_def

lemmas example_defs = fresh_parser_def opts_parser_def tag_parser_def files_parser_def

section \<open>The example registries are reached by declarations\<close>

lemma Argument_Parser_fresh: "Argument_Parser = Returns fresh_parser"
  by (simp add: Argument_Parser_def add_optional_flag_def add_optional_def empty_parser_def
      fresh_parser_def set_flag_def lex_defs)

lemma opts_parser_declared:
  "then_call (add_optional_flag fresh_parser ''-v'' ''--verbose'' FLAG []) (\<lambda>(p, _).
   then_call (add_optional_flag p ''-o'' ''--output'' SINGLE []) (\<lambda>(p, _).
   then_call (add_optional p ''--tag'' APPEND []) (\<lambda>(p, _).
     add_optional p ''--count'' SINGLE []))) = Returns (opts_parser, ''count'')"
  by (simp add: then_call_def add_optional_flag_def add_optional_def fresh_parser_def
      opts_parser_def set_flag_def lex_defs)

lemma tag_parser_declared:
  "add_optional fresh_parser ''--tag'' APPEND [] = Returns (tag_parser, ''tag'')"
  by (simp add: add_optional_def fresh_parser_def tag_parser_def lex_defs)

lemma files_parser_declared:
  "then_call (add_positional opts_parser ''src'' []) (\<lambda>p. add_positional p ''dst'' []) =
     Returns files_parser"
  by (simp add: then_call_def add_positional_def opts_parser_def files_parser_def lex_defs)

section \<open>The declarations keep the invariant\<close>

lemma registry_inv_fresh: "registry_inv fresh_parser"
  by (simp add: registry_inv_def fresh_parser_def)

lemma registry_inv_add_positional:
  "registry_inv p \<Longrightarrow> add_positional p name help_text = Returns p' \<Longrightarrow> registry_inv p'"
  by (auto simp: registry_inv_def add_positional_def list_all_iff Ball_def domIff
      split: if_splits)

lemma registry_inv_add_optional:
  "registry_inv p \<Longrightarrow> add_optional p long_name type help_text = Returns (p', r) \<Longrightarrow>
   registry_inv p'"
  by (auto simp: registry_inv_def add_optional_def Let_def list_all_iff split: if_splits)

lemma registry_inv_add_optional_flag:
  "registry_inv p \<Longrightarrow> add_optional_flag p flag long_name type help_text = Returns (p', r) \<Longrightarrow>
   registry_inv p'"
  by (auto simp: registry_inv_def add_optional_flag_def add_optional_def set_flag_def Let_def
      list_all_iff split: if_splits list.splits)

lemma registry_inv_files: "registry_inv files_parser"
  by (auto simp: registry_inv_def files_parser_def opts_parser_def)

section \<open>The scanning loop\<close>

lemma parse_optional_arg_index:
  "parse_optional_arg p oa name argi argc argv = Returns (oa', argi') \<Longrightarrow>
   argi' = argi \<or> argi' = Suc argi"
  by (auto simp: parse_optional_arg_def Let_def split: outcome.splits option.splits if_splits)

lemma subseq_drop_mono: "i \<le> j \<Longrightarrow> subseq (drop j xs) (drop i xs)"
proof -
  assume "i \<le> j"
  then have "drop j xs = drop (j - i) (drop i xs)" by simp
  then show ?thesis by (metis suffix_drop suffix_imp_subseq)
qed

text \<open>
  What the loop collects in \<open>positional_args\<close> are entries of \<open>argv\<close> from \<open>argi\<close> on, in the
  order in which they stand there, and none of them has the form of an option.
\<close>

lemma scan_loop_candidates:
  "scan_loop p oa pa argi argc argv = Returns (oa', pa') \<Longrightarrow> argc = length argv \<Longrightarrow>
   \<exists>ys. pa' = pa @ ys \<and> subseq ys (drop argi argv) \<and> (\<forall>y\<in>set ys. \<not> valid_option_name y)"
proof (induction p oa pa argi argc argv rule: scan_loop.induct)
  case (1 p oa pa argi argc argv)
  show ?case
  proof (cases "argi < argc")
    case False
    with "1.prems" show ?thesis by (subst (asm) scan_loop.simps) simp
  next
    case lt: True
    show ?thesis
    proof (cases "valid_option_name (argv ! argi)")
      case opt: True
      with lt "1.prems" obtain oa1 argi1 where
        r: "parse_optional_arg p oa (argv ! argi) argi argc argv = Returns (oa1, argi1)" and
        s: "scan_loop p oa1 pa (Suc argi1) argc argv = Returns (oa', pa')"
        by (subst (asm) scan_loop.simps) (auto split: outcome.splits)
      from "1.IH"(1) [OF lt refl opt r refl s "1.prems"(2)] obtain ys where
        ys: "pa' = pa @ ys" "subseq ys (drop (Suc argi1) argv)"
          "\<forall>y\<in>set ys. \<not> valid_option_name y"
        by blast
      from parse_optional_arg_index [OF r] have "argi \<le> Suc argi1" by auto
      then have "subseq (drop (Suc argi1) argv) (drop argi argv)" by (rule subseq_drop_mono)
      with ys(2) have "subseq ys (drop argi argv)" by (rule subseq_order.trans)
      with ys show ?thesis by blast
    next
      case pos: False
      with lt "1.prems" have
        s: "scan_loop p oa (pa @ [argv ! argi]) (Suc argi) argc argv = Returns (oa', pa')"
        by (subst (asm) scan_loop.simps) simp
      from "1.IH"(2) [OF lt refl pos s "1.prems"(2)] obtain ys where
        ys: "pa' = (pa @ [argv ! argi]) @ ys" "subseq ys (drop (Suc argi) argv)"
          "\<forall>y\<in>set ys. \<not> valid_option_name y"
        by blast
      from lt "1.prems"(2) have "drop argi argv = argv ! argi # drop (Suc argi) argv"
        by (simp add: Cons_nth_drop_Suc)
      with ys(2) have "subseq (argv ! argi # ys) (drop argi argv)" by simp
      with ys pos show ?thesis by auto
    qed
  qed
qed

text \<open>The loop changes the values of optional arguments that exist, and adds no key.\<close>

lemma parse_optional_arg_dom:
  "parse_optional_arg p oa name argi argc argv = Returns (oa', argi') \<Longrightarrow> dom oa' = dom oa"
  by (auto simp: parse_optional_arg_def Let_def split: outcome.splits option.splits if_splits)

lemma scan_loop_dom:
  "scan_loop p oa pa argi argc argv = Returns (oa', pa') \<Longrightarrow> dom oa' = dom oa"
proof (induction p oa pa argi argc argv rule: scan_loop.induct)
  case (1 p oa pa argi argc argv)
  show ?case
  proof (cases "argi < argc")
    case False
    with "1.prems" show ?thesis by (simp add: scan_loop_done)
  next
    case lt: True
    show ?thesis
    proof (cases "valid_option_name (argv ! argi)")
      case opt: True
      with lt "1.prems" obtain oa1 argi1 where
        r: "parse_optional_arg p oa (argv ! argi) argi argc argv = Returns (oa1, argi1)" and
        s: "scan_loop p oa1 pa (Suc argi1) argc argv = Returns (oa', pa')"
        by (auto simp: scan_loop_option split: outcome.splits)
      from "1.IH"(1) [OF lt refl opt r refl s] parse_optional_arg_dom [OF r]
      show ?thesis by simp
    next
      case pos: False
      with lt "1.prems" have
        "scan_loop p oa (pa @ [argv ! argi]) (Suc argi) argc argv = Returns (oa', pa')"
        by (simp add: scan_loop_positional)
      with "1.IH"(2) [OF lt refl pos] show ?thesis by simp
    qed
  qed
qed

text \<open>The four runtime errors that the loop can end with.\<close>

lemma parse_optional_arg_throws:
  "parse_optional_arg p oa name argi argc argv = Throws e \<Longrightarrow>
   e = Invalid_flag name \<or> e = Invalid_option name \<or> e = Only_once name \<or>
   e = Requires_value name"
  by (auto simp: parse_optional_arg_def lookup_formatted_option_name_def Let_def
      split: outcome.splits option.splits if_splits list.splits)

lemma scan_loop_throws:
  "scan_loop p oa pa argi argc argv = Throws e \<Longrightarrow>
   \<exists>s. e = Invalid_flag s \<or> e = Invalid_option s \<or> e = Only_once s \<or> e = Requires_value s"
proof (induction p oa pa argi argc argv rule: scan_loop.induct)
  case (1 p oa pa argi argc argv)
  show ?case
  proof (cases "argi < argc")
    case False
    with "1.prems" show ?thesis by (simp add: scan_loop_done)
  next
    case lt: True
    show ?thesis
    proof (cases "valid_option_name (argv ! argi)")
      case opt: True
      show ?thesis
      proof (cases "parse_optional_arg p oa (argv ! argi) argi argc argv")
        case (Returns r)
        obtain oa1 argi1 where r: "r = (oa1, argi1)" by (cases r)
        with Returns lt opt "1.prems" have
          "scan_loop p oa1 pa (Suc argi1) argc argv = Throws e"
          by (simp add: scan_loop_option)
        with "1.IH"(1) [OF lt refl opt Returns [unfolded r] refl] show ?thesis by simp
      next
        case (Throws e')
        with lt opt "1.prems" have "e' = e" by (simp add: scan_loop_option)
        with parse_optional_arg_throws [OF Throws] show ?thesis by blast
      next
        case Exits
        with lt opt "1.prems" show ?thesis by (simp add: scan_loop_option)
      qed
    next
      case pos: False
      with lt "1.prems" have
        "scan_loop p oa (pa @ [argv ! argi]) (Suc argi) argc argv = Throws e"
        by (simp add: scan_loop_positional)
      with "1.IH"(2) [OF lt refl pos] show ?thesis by simp
    qed
  qed
qed

section \<open>The two loops after the scan\<close>

lemma fold_assign_fields:
  "m_positional_order (fold (\<lambda>i q. q\<lparr>m_positional_args :=
       set_value (m_positional_args q) (m_positional_order q ! i) (c ! i)\<rparr>) is q) =
     m_positional_order q \<and>
   m_optional_args (fold (\<lambda>i q. q\<lparr>m_positional_args :=
       set_value (m_positional_args q) (m_positional_order q ! i) (c ! i)\<rparr>) is q) =
     m_optional_args q \<and>
   m_optional_order (fold (\<lambda>i q. q\<lparr>m_positional_args :=
       set_value (m_positional_args q) (m_positional_order q ! i) (c ! i)\<rparr>) is q) =
     m_optional_order q \<and>
   m_flags (fold (\<lambda>i q. q\<lparr>m_positional_args :=
       set_value (m_positional_args q) (m_positional_order q ! i) (c ! i)\<rparr>) is q) = m_flags q \<and>
   m_scriptname (fold (\<lambda>i q. q\<lparr>m_positional_args :=
       set_value (m_positional_args q) (m_positional_order q ! i) (c ! i)\<rparr>) is q) =
     m_scriptname q"
  by (induction "is" arbitrary: q) simp_all

lemma fold_assign_args:
  "m_positional_args (fold (\<lambda>i q. q\<lparr>m_positional_args :=
       set_value (m_positional_args q) (m_positional_order q ! i) (c ! i)\<rparr>) is q) =
   fold (\<lambda>i m. set_value m (m_positional_order q ! i) (c ! i)) is (m_positional_args q)"
  by (induction "is" arbitrary: q) simp_all

lemma assign_positionals_fields:
  "m_positional_order (assign_positionals p c) = m_positional_order p"
  "m_optional_args (assign_positionals p c) = m_optional_args p"
  "m_optional_order (assign_positionals p c) = m_optional_order p"
  "m_flags (assign_positionals p c) = m_flags p"
  "m_scriptname (assign_positionals p c) = m_scriptname p"
  by (simp_all add: assign_positionals_def fold_assign_fields)

lemma assign_positionals_args:
  "m_positional_args (assign_positionals p c) =
   fold (\<lambda>i m. set_value m (m_positional_order p ! i) (c ! i))
     [0 ..< length (m_positional_order p)] (m_positional_args p)"
  by (simp add: assign_positionals_def fold_assign_args)

lemma set_value_fold_other:
  "k \<notin> set (take n order) \<Longrightarrow> n \<le> length order \<Longrightarrow>
   fold (\<lambda>i m. set_value m (order ! i) (c ! i)) [0 ..< n] m k = m k"
proof (induction n)
  case 0
  then show ?case by simp
next
  case (Suc n)
  then have "k \<noteq> order ! n" "k \<notin> set (take n order)"
    by (auto simp: take_Suc_conv_app_nth)
  with Suc show ?case by (simp add: set_value_def)
qed

lemma set_value_fold_assigned:
  "distinct order \<Longrightarrow> n \<le> length order \<Longrightarrow> i < n \<Longrightarrow>
   fold (\<lambda>i m. set_value m (order ! i) (c ! i)) [0 ..< n] m (order ! i) =
     Some (case m (order ! i) of
             Some info \<Rightarrow> info\<lparr>pos_value := c ! i\<rparr>
           | None \<Rightarrow> \<lparr>pos_value = c ! i, pos_help_text = []\<rparr>)"
proof (induction n)
  case 0
  then show ?case by simp
next
  case (Suc n)
  define M where "M = fold (\<lambda>i m. set_value m (order ! i) (c ! i)) [0 ..< n] m"
  have step: "fold (\<lambda>i m. set_value m (order ! i) (c ! i)) [0 ..< Suc n] m =
      set_value M (order ! n) (c ! n)"
    by (simp add: M_def)
  show ?case
  proof (cases "i = n")
    case True
    from Suc.prems have "order ! n \<notin> set (take n order)"
      by (auto simp: in_set_conv_nth nth_eq_iff_index_eq)
    then have "M (order ! n) = m (order ! n)"
      unfolding M_def using Suc.prems by (intro set_value_fold_other) auto
    with True show ?thesis unfolding step by (simp add: set_value_def split: option.splits)
  next
    case False
    with Suc.prems have lt: "i < n" and ne: "order ! i \<noteq> order ! n"
      by (auto simp: nth_eq_iff_index_eq)
    from Suc.IH [OF Suc.prems(1) _ lt] Suc.prems(2)
    have "M (order ! i) = Some (case m (order ! i) of
             Some info \<Rightarrow> info\<lparr>pos_value := c ! i\<rparr>
           | None \<Rightarrow> \<lparr>pos_value = c ! i, pos_help_text = []\<rparr>)"
      by (simp add: M_def)
    moreover from ne have "set_value M (order ! n) (c ! n) (order ! i) = M (order ! i)"
      by (simp add: set_value_def)
    ultimately show ?thesis unfolding step by simp
  qed
qed

lemma rethread_nth:
  "n \<le> m \<Longrightarrow> m - n < length argv \<Longrightarrow> j < length argv \<Longrightarrow>
   fold (\<lambda>pos_idx av. av[pos_idx - n + 1 := c ! pos_idx]) [n ..< m] argv ! j =
     (if 1 \<le> j \<and> j \<le> m - n then c ! (j - 1 + n) else argv ! j)
   \<and> length (fold (\<lambda>pos_idx av. av[pos_idx - n + 1 := c ! pos_idx]) [n ..< m] argv) =
       length argv"
proof (induction m)
  case 0
  then show ?case by auto
next
  case (Suc m)
  show ?case
  proof (cases "n = Suc m")
    case True
    then show ?thesis by auto
  next
    case False
    with Suc.prems have le: "n \<le> m" and lt: "m - n < length argv" by auto
    from Suc.IH [OF le lt Suc.prems(3)] le Suc.prems show ?thesis
      by (auto simp: nth_list_update)
  qed
qed

lemma rethread_take:
  assumes "n \<le> length c" "length c - n \<le> length args"
  shows "take (length c - n + 1) (rethread n c (argv0 # args)) = argv0 # drop n c"
    and "length (rethread n c (argv0 # args)) = Suc (length args)"
proof -
  let ?r = "rethread n c (argv0 # args)"
  have lt: "length c - n < length (argv0 # args)" using assms by simp
  have len: "length ?r = Suc (length args)"
    using rethread_nth [OF assms(1) lt, of 0] by (simp add: rethread_def)
  show "length ?r = Suc (length args)" by (rule len)
  show "take (length c - n + 1) ?r = argv0 # drop n c"
  proof (rule nth_equalityI)
    show "length (take (length c - n + 1) ?r) = length (argv0 # drop n c)"
      using len assms by simp
  next
    fix j assume "j < length (take (length c - n + 1) ?r)"
    then have j: "j < length c - n + 1" "j < length (argv0 # args)" using len by auto
    from rethread_nth [OF assms(1) lt j(2)] j assms
    show "take (length c - n + 1) ?r ! j = (argv0 # drop n c) ! j"
      by (cases j) (auto simp: rethread_def add.commute)
  qed
qed

lemma dom_set_value: "dom (set_value m k v) = insert k (dom m)"
  by (simp add: set_value_def)

lemma set_value_fold_dom:
  "n \<le> length order \<Longrightarrow>
   dom (fold (\<lambda>i m. set_value m (order ! i) (c ! i)) [0 ..< n] m) = dom m \<union> set (take n order)"
proof (induction n)
  case 0
  then show ?case by simp
next
  case (Suc n)
  then show ?case by (auto simp: dom_set_value take_Suc_conv_app_nth)
qed

text \<open>\<open>parse_args\<close> keeps the invariant as well, whatever its outcome.\<close>

lemma registry_inv_parse_args:
  assumes "registry_inv p" and "parse_args p argv0 args = (p', r)"
  shows "registry_inv p'"
proof (cases "\<exists>x. r = Returns x")
  case False
  with assms(2) have "p' = p\<lparr>m_scriptname := argv0\<rparr>"
    by (auto simp: parse_args_def Let_def split: outcome.splits prod.splits if_splits)
  with assms(1) show ?thesis by (simp add: registry_inv_def)
next
  case True
  with assms(2) obtain oa pa where
    scan: "scan_loop (p\<lparr>m_scriptname := argv0\<rparr>) (m_optional_args p) [] 1 (Suc (length args))
             (argv0 # args) = Returns (oa, pa)"
    and p': "p' = assign_positionals (p\<lparr>m_scriptname := argv0, m_optional_args := oa\<rparr>) pa"
    by (auto simp: parse_args_def Let_def split: outcome.splits prod.splits if_splits)
  from scan_loop_dom [OF scan] have d: "dom oa = dom (m_optional_args p)" .
  have "\<And>name. m_optional_args p name = None \<Longrightarrow> oa name = None"
    using d by (metis domIff)
  with assms(1) show ?thesis
    by (auto simp: registry_inv_def p' assign_positionals_fields assign_positionals_args
        set_value_fold_dom list_all_iff)
qed

section \<open>Conversion of numerals\<close>

lemma unsigned_minus_range:
  "CHR ''-'' \<in> set v \<Longrightarrow>
   parse_string_arg (T_unsigned w) name v = Throws (Must_be_in_range name)"
  by (simp add: stoull_def parse_numeric_arg_def)

lemma signed_no_digits:
  "snd (sign_and_digits v) = [] \<Longrightarrow>
   parse_string_arg (T_signed w) name v = Throws (Must_be_integral name)"
  by (cases "sign_and_digits v") (simp add: std_stoll_def parse_numeric_arg_def)

lemma unsigned_no_digits:
  "snd (sign_and_digits v) = [] \<Longrightarrow> CHR ''-'' \<notin> set v \<Longrightarrow>
   parse_string_arg (T_unsigned w) name v = Throws (Must_be_integral name)"
  by (cases "sign_and_digits v")
    (simp add: stoull_def std_stoull_def parse_numeric_arg_def)

lemma is_digit_facts:
  "is_digit d \<Longrightarrow> d \<noteq> CHR 0x00 \<and> \<not> isspace d \<and> d \<noteq> CHR ''-'' \<and> d \<noteq> CHR ''+''"
proof -
  assume d: "is_digit d"
  have "\<not> isspace d"
  proof
    assume "isspace d"
    with d have "CHR ''0'' \<le> d" "d \<le> CHR 0x0D"
      by (auto simp: is_digit_def isspace_def)
    then have "CHR ''0'' \<le> CHR 0x0D" by (rule order_trans)
    then show False by simp
  qed
  with d show ?thesis by (auto simp: is_digit_def)
qed

text \<open>A string that starts with digits: the numeral is the longest run of digits.\<close>

lemma sign_and_digits_numeral:
  assumes "ds \<noteq> []" "list_all is_digit ds" "takeWhile is_digit (c_str r) = []"
  shows "sign_and_digits (ds @ r) = (False, ds)"
proof -
  from assms(1) obtain d ds' where ds: "ds = d # ds'" by (cases ds) auto
  with assms(2) have d: "is_digit d" by simp
  from assms(2) have nz: "\<forall>x\<in>set ds. x \<noteq> CHR 0x00"
    using is_digit_facts by (auto simp: list_all_iff)
  have c: "c_str (ds @ r) = ds @ c_str r"
    unfolding c_str_def using nz by (simp add: takeWhile_append2)
  from assms(2) have "takeWhile is_digit (ds @ c_str r) = ds @ takeWhile is_digit (c_str r)"
    by (simp add: takeWhile_append2 list_all_iff)
  with assms(3) have t: "takeWhile is_digit (ds @ c_str r) = ds" by simp
  from is_digit_facts [OF d] t show ?thesis
    unfolding sign_and_digits_def c by (simp add: ds Let_def)
qed

lemma c_str_nondigit: "\<not> is_digit c \<Longrightarrow> takeWhile is_digit (c_str (c # r)) = []"
  by (simp add: c_str_def)

lemma signed_trailing_ignored:
  assumes "ds \<noteq> []" "list_all is_digit ds" "\<not> is_digit c"
  shows "parse_string_arg (T_signed w) name (ds @ c # r) = parse_string_arg (T_signed w) name ds"
proof -
  have "sign_and_digits (ds @ c # r) = (False, ds)"
    using assms by (intro sign_and_digits_numeral c_str_nondigit)
  moreover have "sign_and_digits (ds @ []) = (False, ds)"
    using assms by (intro sign_and_digits_numeral) (simp_all add: c_str_def)
  ultimately show ?thesis by (simp add: std_stoll_def)
qed

lemma unsigned_trailing_ignored:
  assumes "ds \<noteq> []" "list_all is_digit ds" "\<not> is_digit c" "CHR ''-'' \<notin> set (c # r)"
  shows "parse_string_arg (T_unsigned w) name (ds @ c # r) =
         parse_string_arg (T_unsigned w) name ds"
proof -
  have "sign_and_digits (ds @ c # r) = (False, ds)"
    using assms by (intro sign_and_digits_numeral c_str_nondigit)
  moreover have "sign_and_digits (ds @ []) = (False, ds)"
    using assms by (intro sign_and_digits_numeral) (simp_all add: c_str_def)
  moreover from assms(2) have "CHR ''-'' \<notin> set ds"
    using is_digit_facts by (auto simp: list_all_iff)
  ultimately show ?thesis using assms(4) by (simp add: stoull_def std_stoull_def)
qed

text \<open>Floating-point numerals.\<close>

lemma float_no_numeral:
  "float_subject v = None \<Longrightarrow>
   parse_string_arg (T_floating fl) name v = Throws (Must_be_integral name)"
  by (simp add: std_stold_def parse_numeric_arg_def)

lemma is_digit_not_x: "is_digit d \<Longrightarrow> d \<noteq> CHR ''x'' \<and> d \<noteq> CHR ''X''"
  by (auto simp: is_digit_def)

lemma digits_then_rest:
  assumes "list_all is_digit ds" and "case rest of [] \<Rightarrow> True | c # _ \<Rightarrow> \<not> is_digit c"
  shows "takeWhile is_digit (ds @ rest) = ds" and "dropWhile is_digit (ds @ rest) = rest"
proof -
  from assms(2) have t: "takeWhile is_digit rest = []" and d: "dropWhile is_digit rest = rest"
    by (cases rest; simp)+
  from assms(1) show "takeWhile is_digit (ds @ rest) = ds"
    by (simp add: takeWhile_append2 list_all_iff t)
  from assms(1) show "dropWhile is_digit (ds @ rest) = rest"
    by (simp add: dropWhile_append2 list_all_iff d)
qed

lemma float_body_digits:
  assumes ne: "ds \<noteq> []" and dig: "list_all is_digit ds"
    and rest: "case rest of [] \<Rightarrow> True
      | c # _ \<Rightarrow> \<not> is_digit c \<and> c \<noteq> CHR ''.'' \<and> c \<noteq> CHR ''e'' \<and> c \<noteq> CHR ''E'' \<and>
          (ds = ''0'' \<longrightarrow> c \<noteq> CHR ''x'' \<and> c \<noteq> CHR ''X'')"
  shows "float_body negative (ds @ rest) = Some (F_dec negative ds [] 0)"
proof -
  from rest have nd: "case rest of [] \<Rightarrow> True | c # _ \<Rightarrow> \<not> is_digit c"
    by (cases rest) simp_all
  note td = digits_then_rest [OF dig nd]
  have m: "mantissa is_digit (ds @ rest) = Some (ds, [], rest)"
    unfolding mantissa_def Let_def td using ne rest by (cases rest) simp_all
  from rest have e: "exponent_part CHR ''e'' CHR ''E'' rest = 0"
    by (cases rest) (simp_all add: exponent_part_def)
  have h: "(case ds @ rest of
              z # x # r2 \<Rightarrow>
                if z = CHR ''0'' \<and> (x = CHR ''x'' \<or> x = CHR ''X'') then mantissa is_xdigit r2
                else None
            | _ \<Rightarrow> None) = None"
  proof (cases ds)
    case Nil
    with ne show ?thesis by simp
  next
    case (Cons d ds')
    show ?thesis
    proof (cases ds')
      case Nil
      with Cons rest show ?thesis by (cases rest) auto
    next
      case (Cons d2 ds'')
      with \<open>ds = d # ds'\<close> dig have "is_digit d2" by simp
      then have "d2 \<noteq> CHR ''x'' \<and> d2 \<noteq> CHR ''X''" by (rule is_digit_not_x)
      with Cons \<open>ds = d # ds'\<close> show ?thesis by simp
    qed
  qed
  show ?thesis unfolding float_body_def h by (simp add: m e)
qed

lemma float_subject_digits:
  assumes ne: "ds \<noteq> []" and dig: "list_all is_digit ds"
    and rest: "case c_str r of [] \<Rightarrow> True
      | c # _ \<Rightarrow> \<not> is_digit c \<and> c \<noteq> CHR ''.'' \<and> c \<noteq> CHR ''e'' \<and> c \<noteq> CHR ''E'' \<and>
          (ds = ''0'' \<longrightarrow> c \<noteq> CHR ''x'' \<and> c \<noteq> CHR ''X'')"
  shows "float_subject (ds @ r) = Some (F_dec False ds [] 0)"
proof -
  from ne obtain d ds' where ds: "ds = d # ds'" by (cases ds) auto
  with dig have d: "is_digit d" by simp
  from dig have nz: "\<forall>x\<in>set ds. x \<noteq> CHR 0x00"
    using is_digit_facts by (auto simp: list_all_iff)
  have c: "c_str (ds @ r) = ds @ c_str r"
    unfolding c_str_def using nz by (simp add: takeWhile_append2)
  from is_digit_facts [OF d] have "dropWhile isspace (ds @ c_str r) = d # (ds' @ c_str r)"
    and "d \<noteq> CHR ''-''" and "d \<noteq> CHR ''+''"
    by (simp_all add: ds)
  then have "float_subject (ds @ r) = float_body False (ds @ c_str r)"
    unfolding float_subject_def c by (simp add: ds Let_def)
  with float_body_digits [OF ne dig rest] show ?thesis by simp
qed

lemma float_trailing_ignored:
  assumes "ds \<noteq> []" "list_all is_digit ds" "\<not> is_digit c"
    "c \<noteq> CHR ''.''" "c \<noteq> CHR ''e''" "c \<noteq> CHR ''E''"
    "ds = ''0'' \<longrightarrow> c \<noteq> CHR ''x'' \<and> c \<noteq> CHR ''X''"
  shows "parse_string_arg (T_floating fl) name (ds @ c # r) =
         parse_string_arg (T_floating fl) name ds"
proof -
  have "case c_str (c # r) of [] \<Rightarrow> True
      | c # _ \<Rightarrow> \<not> is_digit c \<and> c \<noteq> CHR ''.'' \<and> c \<noteq> CHR ''e'' \<and> c \<noteq> CHR ''E'' \<and>
          (ds = ''0'' \<longrightarrow> c \<noteq> CHR ''x'' \<and> c \<noteq> CHR ''X'')"
    using assms by (simp add: c_str_def)
  with assms have "float_subject (ds @ c # r) = Some (F_dec False ds [] 0)"
    by (intro float_subject_digits)
  moreover have "float_subject (ds @ []) = Some (F_dec False ds [] 0)"
    using assms by (intro float_subject_digits) (simp_all add: c_str_def)
  ultimately show ?thesis by (simp add: std_stold_def)
qed

text \<open>A stored string that is not empty is converted as it is.\<close>

lemma arg_at_stored:
  "stored_value p name idx = Some v \<Longrightarrow> v \<noteq> [] \<Longrightarrow>
   arg_at_impl p T name idx has_default default_val = parse_string_arg T name v"
  by (auto simp: stored_value_def arg_at_impl_def optional_arg_def split: option.splits if_splits)

lemma arg_at_stored_public:
  assumes "stored_value p name idx = Some v" and "v \<noteq> []"
  shows "arg_at p T name idx = parse_string_arg T name v"
    and "arg_at_default p T name idx default_val = parse_string_arg T name v"
  using assms by (simp_all add: arg_at_def arg_at_default_def arg_at_stored)

section \<open>C1: optional arguments without a value\<close>

text \<open>
  The claim C1 lets the fallback rule hold for every kind, \<open>FLAG\<close> included. For a flag that
  was not given, \<open>optional_arg\<close> returns \<open>"false"\<close>, which is not empty, so \<open>arg_at\<close> converts
  it and never looks at \<open>has_default\<close>: with the flag \<open>verbose\<close> declared and nothing scanned,
  \<open>arg<bool>("verbose", true)\<close> returns \<open>false\<close>, not the default value, and
  \<open>arg<bool>("verbose")\<close> returns \<open>false\<close> where the claim expects the logic error.
\<close>

theorem absent_optional_counterexample:
  "map_option opt_type (m_optional_args opts_parser ''verbose'') = Some FLAG
   \<and> map_option opt_values (m_optional_args opts_parser ''verbose'') = Some []
   \<and> arg_default opts_parser T_bool ''verbose'' (V_bool True) = Returns (V_bool False)
   \<and> arg opts_parser T_bool ''verbose'' = Returns (V_bool False)"
  by (simp add: example_defs get_defs)

text \<open>
  C1, as amended. For an optional argument without values, at every index and for every
  requested type: of kind \<open>SINGLE\<close> or \<open>APPEND\<close>, the value used is the empty string and the
  fallback rule applies (the call without a default value throws the logic error "no value
  given", the spec's NoValueError, and the call with a default value returns it); of kind
  \<open>FLAG\<close>, the value used is \<open>"false"\<close>, and it is converted to the requested type like a
  stored value, with or without a default value (\<open>false\<close> for \<open>bool\<close>).
\<close>

theorem absent_optional:
  assumes "m_optional_args p name = Some info" and "opt_values info = []"
  shows "(opt_type info \<noteq> FLAG \<longrightarrow>
            arg_at p T name idx = Throws (No_value_no_default name) \<and>
            arg_at_default p T name idx default_val = Returns default_val \<and>
            arg p T name = Throws (No_value_no_default name) \<and>
            arg_default p T name default_val = Returns default_val)
       \<and> (opt_type info = FLAG \<longrightarrow>
            arg_at p T name idx = parse_string_arg T name ''false'' \<and>
            arg_at_default p T name idx default_val = parse_string_arg T name ''false'' \<and>
            arg p T name = parse_string_arg T name ''false'' \<and>
            arg_default p T name default_val = parse_string_arg T name ''false'')
       \<and> parse_string_arg T_bool name ''false'' = Returns (V_bool False)"
  using assms by (simp add: get_defs)

text \<open>The option \<open>output\<close> (\<open>SINGLE\<close>) and the flag \<open>verbose\<close>, before any scan.\<close>

theorem absent_optional_witness:
  "m_optional_args opts_parser ''output'' =
     Some \<lparr>opt_flag = CHR ''o'', opt_type = SINGLE, opt_values = [], opt_help_text = []\<rparr>
   \<and> arg opts_parser T_string ''output'' = Throws (No_value_no_default ''output'')
   \<and> arg_default opts_parser T_string ''output'' (V_string ''out.txt'') =
       Returns (V_string ''out.txt'')
   \<and> m_optional_args opts_parser ''verbose'' =
     Some \<lparr>opt_flag = CHR ''v'', opt_type = FLAG, opt_values = [], opt_help_text = []\<rparr>
   \<and> arg opts_parser T_bool ''verbose'' = Returns (V_bool False)
   \<and> arg_default opts_parser T_string ''verbose'' (V_string ''yes'') = Returns (V_string ''false'')"
proof -
  let ?o = "\<lparr>opt_flag = CHR ''o'', opt_type = SINGLE, opt_values = [], opt_help_text = []\<rparr>"
  let ?v = "\<lparr>opt_flag = CHR ''v'', opt_type = FLAG, opt_values = [], opt_help_text = []\<rparr>"
  have o: "m_optional_args opts_parser ''output'' = Some ?o"
    and v: "m_optional_args opts_parser ''verbose'' = Some ?v"
    by (simp_all add: example_defs)
  have e: "opt_values ?o = []" "opt_values ?v = []" by simp_all
  from absent_optional [OF o e(1), of T_string 0 "V_string ''out.txt''"]
    absent_optional [OF v e(2), of T_bool 0 "V_bool True"]
    absent_optional [OF v e(2), of T_string 0 "V_string ''yes''"] o v
  show ?thesis by simp
qed

section \<open>C2: positional arguments and the index\<close>

text \<open>
  The claim C2 requires index 0 for a positional argument. \<open>arg_at\<close> uses \<open>idx\<close> in the branch
  of the optional arguments alone: after \<open>prog a.txt b.txt\<close> with \<open>src\<close> and \<open>dst\<close> declared,
  \<open>arg_at<std::string>("src", 5)\<close> returns \<open>a.txt\<close>.
\<close>

theorem positional_index_counterexample:
  "snd (parse_args files_parser ''prog'' [''a.txt'', ''b.txt'']) =
     Returns (1, [''prog'', ''a.txt'', ''b.txt''])
   \<and> arg_at (fst (parse_args files_parser ''prog'' [''a.txt'', ''b.txt''])) T_string ''src'' 5 =
       Returns (V_string ''a.txt'')"
  by (simp add: scan_defs example_defs lex_defs get_defs)

text \<open>
  C2, as amended. For every declared positional argument with a recorded (non-empty) value,
  \<open>arg_at\<close> returns the conversion of that value at every index, index 0 among them, and
  the fallback rule does not apply: the result is the same with and without a default
  value. (What the call does with an empty value is left open here.)
\<close>

theorem positional_any_index:
  assumes "registry_inv p" and "name \<in> set (m_positional_order p)"
  shows "\<exists>info. m_positional_args p name = Some info \<and>
           (pos_value info \<noteq> [] \<longrightarrow>
              arg_at p T name idx = parse_string_arg T name (pos_value info) \<and>
              arg_at_default p T name idx default_val = parse_string_arg T name (pos_value info))"
proof -
  from assms have "m_optional_args p name = None"
    by (auto simp: registry_inv_def list_all_iff)
  moreover from assms obtain info where "m_positional_args p name = Some info"
    by (auto simp: registry_inv_def)
  ultimately show ?thesis by (simp add: get_defs)
qed

text \<open>The argument \<open>dst\<close> after \<open>prog a.txt b.txt\<close>, at the indices 0 and 7.\<close>

theorem positional_any_index_witness:
  "registry_inv (fst (parse_args files_parser ''prog'' [''a.txt'', ''b.txt'']))
   \<and> ''dst'' \<in> set (m_positional_order (fst (parse_args files_parser ''prog'' [''a.txt'', ''b.txt''])))
   \<and> m_positional_args (fst (parse_args files_parser ''prog'' [''a.txt'', ''b.txt''])) ''dst'' =
       Some \<lparr>pos_value = ''b.txt'', pos_help_text = []\<rparr>
   \<and> arg_at (fst (parse_args files_parser ''prog'' [''a.txt'', ''b.txt''])) T_string ''dst'' 0 =
       Returns (V_string ''b.txt'')
   \<and> arg_at (fst (parse_args files_parser ''prog'' [''a.txt'', ''b.txt''])) T_string ''dst'' 7 =
       Returns (V_string ''b.txt'')
   \<and> arg_at_default (fst (parse_args files_parser ''prog'' [''a.txt'', ''b.txt''])) T_string ''dst'' 7
       (V_string ''none'') = Returns (V_string ''b.txt'')"
proof -
  let ?p = "fst (parse_args files_parser ''prog'' [''a.txt'', ''b.txt''])"
  have inv: "registry_inv ?p"
    by (auto simp: registry_inv_def scan_defs example_defs lex_defs)
  have mem: "''dst'' \<in> set (m_positional_order ?p)"
    by (simp add: scan_defs example_defs lex_defs)
  have val: "m_positional_args ?p ''dst'' = Some \<lparr>pos_value = ''b.txt'', pos_help_text = []\<rparr>"
    by (simp add: scan_defs example_defs lex_defs)
  from positional_any_index [OF inv mem, of T_string 0 "V_string ''none''"]
    positional_any_index [OF inv mem, of T_string 7 "V_string ''none''"] inv mem val
  show ?thesis by simp
qed

section \<open>C3: strings that are not numerals\<close>

text \<open>
  The claim C3 lets no string with a character that is not numeric convert. \<open>std::stoll\<close> and
  \<open>std::stoull\<close> stop at the first character that is not a digit (\<open>std::stold\<close> at the first
  one that cannot continue its numeral) and the class does not ask where they stopped:
  \<open>12abc\<close> converts to 12, as a stored value of \<open>--count\<close> too. For an
  unsigned type, \<open>a-b\<close> fails with the range error, not with the conversion error, since
  \<open>stoull\<close> looks for a dash first.
\<close>

theorem malformed_numeric_counterexample:
  "parse_string_arg (T_signed 32) ''count'' ''12abc'' = Returns (V_signed 12)
   \<and> arg (fst (parse_args opts_parser ''prog'' [''--count'', ''12abc''])) (T_signed 32) ''count'' =
       Returns (V_signed 12)
   \<and> parse_string_arg (T_unsigned 32) ''count'' ''12abc'' = Returns (V_unsigned 12)
   \<and> parse_string_arg (T_unsigned 32) ''count'' ''a-b'' = Throws (Must_be_in_range ''count'')"
  by (simp add: scan_defs example_defs lex_defs get_defs conv_defs)

text \<open>
  C3, as amended, for the signed and unsigned integer types and the floating-point types,
  and for a stored string that is not empty (an empty value of an optional argument counts
  as no value). When the string has no numeral where one has to start, that is after leading
  white space and one optional sign (for an integer type a decimal digit, for a
  floating-point type what \<open>std::stold\<close> reads), \<open>arg_at\<close> throws the runtime error "must be
  of integral type" (the spec's TypeConversionError); for an unsigned type this holds for
  strings without a dash, and every string with a dash throws the runtime error "must be in
  range" (the spec's RangeError) instead. The two errors are distinct. What follows a numeral
  is ignored: for a run of decimal digits followed by a character that cannot continue the
  numeral (for an integer type any character that is not a digit; for a floating-point type
  one that is neither a digit nor the point nor \<open>e\<close> or \<open>E\<close>, nor \<open>x\<close> or \<open>X\<close> after the single
  digit 0) and by anything else, \<open>arg_at\<close> gives what the conversion of the run of digits
  alone gives.
\<close>

theorem malformed_numeric:
  "(\<forall>p name idx v w d.
      stored_value p name idx = Some v \<and> v \<noteq> [] \<and> snd (sign_and_digits v) = [] \<longrightarrow>
      arg_at p (T_signed w) name idx = Throws (Must_be_integral name) \<and>
      arg_at_default p (T_signed w) name idx d = Throws (Must_be_integral name))
   \<and> (\<forall>p name idx v w d.
      stored_value p name idx = Some v \<and> v \<noteq> [] \<and> snd (sign_and_digits v) = [] \<and>
      CHR ''-'' \<notin> set v \<longrightarrow>
      arg_at p (T_unsigned w) name idx = Throws (Must_be_integral name) \<and>
      arg_at_default p (T_unsigned w) name idx d = Throws (Must_be_integral name))
   \<and> (\<forall>p name idx v w d.
      stored_value p name idx = Some v \<and> CHR ''-'' \<in> set v \<longrightarrow>
      arg_at p (T_unsigned w) name idx = Throws (Must_be_in_range name) \<and>
      arg_at_default p (T_unsigned w) name idx d = Throws (Must_be_in_range name))
   \<and> (\<forall>p name idx v fl d.
      stored_value p name idx = Some v \<and> v \<noteq> [] \<and> float_subject v = None \<longrightarrow>
      arg_at p (T_floating fl) name idx = Throws (Must_be_integral name) \<and>
      arg_at_default p (T_floating fl) name idx d = Throws (Must_be_integral name))
   \<and> (\<forall>name. Must_be_integral name \<noteq> Must_be_in_range name)
   \<and> (\<forall>p name idx ds c r w d.
      stored_value p name idx = Some (ds @ c # r) \<and> ds \<noteq> [] \<and> list_all is_digit ds \<and>
      \<not> is_digit c \<longrightarrow>
      arg_at p (T_signed w) name idx = parse_string_arg (T_signed w) name ds \<and>
      arg_at_default p (T_signed w) name idx d = parse_string_arg (T_signed w) name ds)
   \<and> (\<forall>p name idx ds c r w d.
      stored_value p name idx = Some (ds @ c # r) \<and> ds \<noteq> [] \<and> list_all is_digit ds \<and>
      \<not> is_digit c \<and> CHR ''-'' \<notin> set (c # r) \<longrightarrow>
      arg_at p (T_unsigned w) name idx = parse_string_arg (T_unsigned w) name ds \<and>
      arg_at_default p (T_unsigned w) name idx d = parse_string_arg (T_unsigned w) name ds)
   \<and> (\<forall>p name idx ds c r fl d.
      stored_value p name idx = Some (ds @ c # r) \<and> ds \<noteq> [] \<and> list_all is_digit ds \<and>
      \<not> is_digit c \<and> c \<noteq> CHR ''.'' \<and> c \<noteq> CHR ''e'' \<and> c \<noteq> CHR ''E'' \<and>
      (ds = ''0'' \<longrightarrow> c \<noteq> CHR ''x'' \<and> c \<noteq> CHR ''X'') \<longrightarrow>
      arg_at p (T_floating fl) name idx = parse_string_arg (T_floating fl) name ds \<and>
      arg_at_default p (T_floating fl) name idx d = parse_string_arg (T_floating fl) name ds)"
proof (intro conjI allI impI)
  fix p :: parser and name idx v w d
  assume h: "stored_value p name idx = Some v \<and> v \<noteq> [] \<and> snd (sign_and_digits v) = []"
  then have s: "stored_value p name idx = Some v" and ne: "v \<noteq> []"
    by simp_all
  from h have "parse_string_arg (T_signed w) name v = Throws (Must_be_integral name)"
    using signed_no_digits by blast
  then show "arg_at p (T_signed w) name idx = Throws (Must_be_integral name)"
    and "arg_at_default p (T_signed w) name idx d = Throws (Must_be_integral name)"
    by (simp_all only: arg_at_stored_public [OF s ne])
next
  fix p :: parser and name idx v w d
  assume h: "stored_value p name idx = Some v \<and> v \<noteq> [] \<and> snd (sign_and_digits v) = [] \<and>
      CHR ''-'' \<notin> set v"
  then have s: "stored_value p name idx = Some v" and ne: "v \<noteq> []"
    by simp_all
  from h have "parse_string_arg (T_unsigned w) name v = Throws (Must_be_integral name)"
    using unsigned_no_digits by blast
  then show "arg_at p (T_unsigned w) name idx = Throws (Must_be_integral name)"
    and "arg_at_default p (T_unsigned w) name idx d = Throws (Must_be_integral name)"
    by (simp_all only: arg_at_stored_public [OF s ne])
next
  fix p :: parser and name idx v w d
  assume h: "stored_value p name idx = Some v \<and> CHR ''-'' \<in> set v"
  then have s: "stored_value p name idx = Some v" and ne: "v \<noteq> []"
    by auto
  from h have "parse_string_arg (T_unsigned w) name v = Throws (Must_be_in_range name)"
    using unsigned_minus_range by blast
  then show "arg_at p (T_unsigned w) name idx = Throws (Must_be_in_range name)"
    and "arg_at_default p (T_unsigned w) name idx d = Throws (Must_be_in_range name)"
    by (simp_all only: arg_at_stored_public [OF s ne])
next
  fix p :: parser and name idx v fl d
  assume h: "stored_value p name idx = Some v \<and> v \<noteq> [] \<and> float_subject v = None"
  then have s: "stored_value p name idx = Some v" and ne: "v \<noteq> []"
    by simp_all
  from h have "parse_string_arg (T_floating fl) name v = Throws (Must_be_integral name)"
    using float_no_numeral by blast
  then show "arg_at p (T_floating fl) name idx = Throws (Must_be_integral name)"
    and "arg_at_default p (T_floating fl) name idx d = Throws (Must_be_integral name)"
    by (simp_all only: arg_at_stored_public [OF s ne])
next
  fix name
  show "Must_be_integral name \<noteq> Must_be_in_range name" by simp
next
  fix p :: parser and name idx ds c r w d
  assume h: "stored_value p name idx = Some (ds @ c # r) \<and> ds \<noteq> [] \<and> list_all is_digit ds \<and>
      \<not> is_digit c"
  then have s: "stored_value p name idx = Some (ds @ c # r)" and ne: "ds @ c # r \<noteq> []"
    by simp_all
  from h have "parse_string_arg (T_signed w) name (ds @ c # r) =
      parse_string_arg (T_signed w) name ds"
    using signed_trailing_ignored by blast
  then show "arg_at p (T_signed w) name idx = parse_string_arg (T_signed w) name ds"
    and "arg_at_default p (T_signed w) name idx d = parse_string_arg (T_signed w) name ds"
    by (simp_all only: arg_at_stored_public [OF s ne])
next
  fix p :: parser and name idx ds c r w d
  assume h: "stored_value p name idx = Some (ds @ c # r) \<and> ds \<noteq> [] \<and> list_all is_digit ds \<and>
      \<not> is_digit c \<and> CHR ''-'' \<notin> set (c # r)"
  then have s: "stored_value p name idx = Some (ds @ c # r)" and ne: "ds @ c # r \<noteq> []"
    by simp_all
  from h have "parse_string_arg (T_unsigned w) name (ds @ c # r) =
      parse_string_arg (T_unsigned w) name ds"
    using unsigned_trailing_ignored by blast
  then show "arg_at p (T_unsigned w) name idx = parse_string_arg (T_unsigned w) name ds"
    and "arg_at_default p (T_unsigned w) name idx d = parse_string_arg (T_unsigned w) name ds"
    by (simp_all only: arg_at_stored_public [OF s ne])
next
  fix p :: parser and name idx ds c r fl d
  assume h: "stored_value p name idx = Some (ds @ c # r) \<and> ds \<noteq> [] \<and> list_all is_digit ds \<and>
      \<not> is_digit c \<and> c \<noteq> CHR ''.'' \<and> c \<noteq> CHR ''e'' \<and> c \<noteq> CHR ''E'' \<and>
      (ds = ''0'' \<longrightarrow> c \<noteq> CHR ''x'' \<and> c \<noteq> CHR ''X'')"
  then have s: "stored_value p name idx = Some (ds @ c # r)" and ne: "ds @ c # r \<noteq> []"
    by simp_all
  from h have "parse_string_arg (T_floating fl) name (ds @ c # r) =
      parse_string_arg (T_floating fl) name ds"
    using float_trailing_ignored by blast
  then show "arg_at p (T_floating fl) name idx = parse_string_arg (T_floating fl) name ds"
    and "arg_at_default p (T_floating fl) name idx d = parse_string_arg (T_floating fl) name ds"
    by (simp_all only: arg_at_stored_public [OF s ne])
qed

text \<open>
  The values \<open>abc\<close> and \<open>12abc\<close> of \<open>--count\<close>, requested as \<open>int\<close> and as \<open>double\<close>: \<open>abc\<close> has
  no numeral, \<open>12abc\<close> is converted as \<open>12\<close> is.
\<close>

theorem malformed_numeric_witness:
  "stored_value (fst (parse_args opts_parser ''prog'' [''--count'', ''abc''])) ''count'' 0 =
     Some ''abc''
   \<and> snd (sign_and_digits ''abc'') = []
   \<and> float_subject ''abc'' = None
   \<and> arg_at (fst (parse_args opts_parser ''prog'' [''--count'', ''abc''])) (T_signed 32)
       ''count'' 0 = Throws (Must_be_integral ''count'')
   \<and> arg_at (fst (parse_args opts_parser ''prog'' [''--count'', ''abc'']))
       (T_floating exact_double) ''count'' 0 = Throws (Must_be_integral ''count'')
   \<and> stored_value (fst (parse_args opts_parser ''prog'' [''--count'', ''12abc''])) ''count'' 0 =
       Some (''12'' @ CHR ''a'' # ''bc'')
   \<and> list_all is_digit ''12''
   \<and> arg_at (fst (parse_args opts_parser ''prog'' [''--count'', ''12abc''])) (T_signed 32)
       ''count'' 0 = parse_string_arg (T_signed 32) ''count'' ''12''
   \<and> parse_string_arg (T_signed 32) ''count'' ''12'' = Returns (V_signed 12)
   \<and> arg_at (fst (parse_args opts_parser ''prog'' [''--count'', ''12abc'']))
       (T_floating exact_double) ''count'' 0 =
       parse_string_arg (T_floating exact_double) ''count'' ''12''
   \<and> parse_string_arg (T_floating exact_double) ''count'' ''12'' =
       Returns (V_floating (LD_finite 12))"
proof -
  let ?p = "fst (parse_args opts_parser ''prog'' [''--count'', ''abc''])"
  let ?q = "fst (parse_args opts_parser ''prog'' [''--count'', ''12abc''])"
  have sp: "stored_value ?p ''count'' 0 = Some ''abc''"
    by (simp add: stored_value_def scan_defs example_defs lex_defs)
  have sq: "stored_value ?q ''count'' 0 = Some (''12'' @ CHR ''a'' # ''bc'')"
    by (simp add: stored_value_def scan_defs example_defs lex_defs)
  have a: "snd (sign_and_digits ''abc'') = []" and f: "float_subject ''abc'' = None"
    by (simp_all add: conv_defs float_defs lex_defs)
  have d: "list_all is_digit ''12''" by (simp add: lex_defs)
  have h1: "stored_value ?p ''count'' 0 = Some ''abc'' \<and> ''abc'' \<noteq> [] \<and>
      snd (sign_and_digits ''abc'') = []"
    using sp a by simp
  have h2: "stored_value ?p ''count'' 0 = Some ''abc'' \<and> ''abc'' \<noteq> [] \<and>
      float_subject ''abc'' = None"
    using sp f by simp
  have h3: "stored_value ?q ''count'' 0 = Some (''12'' @ CHR ''a'' # ''bc'') \<and> ''12'' \<noteq> [] \<and>
      list_all is_digit ''12'' \<and> \<not> is_digit CHR ''a''"
    using sq d by (simp add: lex_defs)
  have h4: "stored_value ?q ''count'' 0 = Some (''12'' @ CHR ''a'' # ''bc'') \<and> ''12'' \<noteq> [] \<and>
      list_all is_digit ''12'' \<and> \<not> is_digit CHR ''a'' \<and> CHR ''a'' \<noteq> CHR ''.'' \<and>
      CHR ''a'' \<noteq> CHR ''e'' \<and> CHR ''a'' \<noteq> CHR ''E'' \<and>
      (''12'' = ''0'' \<longrightarrow> CHR ''a'' \<noteq> CHR ''x'' \<and> CHR ''a'' \<noteq> CHR ''X'')"
    using sq d by (simp add: lex_defs)
  have v: "parse_string_arg (T_signed 32) ''count'' ''12'' = Returns (V_signed 12)"
    by (simp add: conv_defs lex_defs)
  have w: "parse_string_arg (T_floating exact_double) ''count'' ''12'' =
      Returns (V_floating (LD_finite 12))"
    by (simp add: conv_defs float_defs lex_defs)
  note m = malformed_numeric
  from m have "\<forall>p name idx v w d.
      stored_value p name idx = Some v \<and> v \<noteq> [] \<and> snd (sign_and_digits v) = [] \<longrightarrow>
      arg_at p (T_signed w) name idx = Throws (Must_be_integral name) \<and>
      arg_at_default p (T_signed w) name idx d = Throws (Must_be_integral name)"
    by (rule conjunct1)
  with h1 have 1: "arg_at ?p (T_signed 32) ''count'' 0 = Throws (Must_be_integral ''count'') \<and>
      arg_at_default ?p (T_signed 32) ''count'' 0 (V_signed 0) =
        Throws (Must_be_integral ''count'')"
    by (elim allE impE)
  from m have "\<forall>p name idx v fl d.
      stored_value p name idx = Some v \<and> v \<noteq> [] \<and> float_subject v = None \<longrightarrow>
      arg_at p (T_floating fl) name idx = Throws (Must_be_integral name) \<and>
      arg_at_default p (T_floating fl) name idx d = Throws (Must_be_integral name)"
    by (elim conjE)
  with h2 have 2: "arg_at ?p (T_floating exact_double) ''count'' 0 =
        Throws (Must_be_integral ''count'') \<and>
      arg_at_default ?p (T_floating exact_double) ''count'' 0 (V_signed 0) =
        Throws (Must_be_integral ''count'')"
    by (elim allE impE)
  from m have "\<forall>p name idx ds c r w d.
      stored_value p name idx = Some (ds @ c # r) \<and> ds \<noteq> [] \<and> list_all is_digit ds \<and>
      \<not> is_digit c \<longrightarrow>
      arg_at p (T_signed w) name idx = parse_string_arg (T_signed w) name ds \<and>
      arg_at_default p (T_signed w) name idx d = parse_string_arg (T_signed w) name ds"
    by (elim conjE)
  with h3 have 3: "arg_at ?q (T_signed 32) ''count'' 0 =
        parse_string_arg (T_signed 32) ''count'' ''12'' \<and>
      arg_at_default ?q (T_signed 32) ''count'' 0 (V_signed 0) =
        parse_string_arg (T_signed 32) ''count'' ''12''"
    by (elim allE impE)
  from m have "\<forall>p name idx ds c r fl d.
      stored_value p name idx = Some (ds @ c # r) \<and> ds \<noteq> [] \<and> list_all is_digit ds \<and>
      \<not> is_digit c \<and> c \<noteq> CHR ''.'' \<and> c \<noteq> CHR ''e'' \<and> c \<noteq> CHR ''E'' \<and>
      (ds = ''0'' \<longrightarrow> c \<noteq> CHR ''x'' \<and> c \<noteq> CHR ''X'') \<longrightarrow>
      arg_at p (T_floating fl) name idx = parse_string_arg (T_floating fl) name ds \<and>
      arg_at_default p (T_floating fl) name idx d = parse_string_arg (T_floating fl) name ds"
    by (elim conjE)
  with h4 have 4: "arg_at ?q (T_floating exact_double) ''count'' 0 =
        parse_string_arg (T_floating exact_double) ''count'' ''12'' \<and>
      arg_at_default ?q (T_floating exact_double) ''count'' 0 (V_signed 0) =
        parse_string_arg (T_floating exact_double) ''count'' ''12''"
    by (elim allE impE)
  from sp a f 1 2 sq d 3 v 4 w show ?thesis by (intro conjI) (elim conjE, assumption)+
qed

section \<open>C4: declaring a positional argument\<close>

text \<open>
  The claim C4 lets the first declaration of every valid name succeed on a new object. The
  constructor has declared the option \<open>--help\<close>, whose reference name \<open>help\<close> is a valid
  positional name: \<open>add_positional("help")\<close> on a new object throws the logic error
  "positional argument name conflicts with optional argument reference name".
\<close>

theorem declare_positional_counterexample:
  "Argument_Parser = Returns fresh_parser
   \<and> valid_positional_name ''help''
   \<and> add_positional fresh_parser ''help'' [] = Throws (Positional_conflicts_optional ''help'')"
  by (simp add: Argument_Parser_fresh add_positional_def fresh_parser_def lex_defs)

text \<open>
  C4, as amended. On a new object, for every valid name other than \<open>help\<close>, the first call
  of \<open>add_positional\<close> returns and appends the name to the declaration order, and a second
  call with the same name throws the logic error "duplicate positional argument name". On
  every object, \<open>add_positional\<close> throws exactly when the name is not valid, is the name of a
  positional argument, or is the reference name of an optional argument; what it throws is
  one of the three logic errors of the function (the spec's ConflictError), and a call that
  returns has appended the name to the order.
\<close>

theorem declare_positional:
  "Argument_Parser = Returns fresh_parser
   \<and> (\<forall>n h h'. valid_positional_name n \<and> n \<noteq> ''help'' \<longrightarrow>
        (\<exists>p1. add_positional fresh_parser n h = Returns p1 \<and>
              m_positional_order p1 = m_positional_order fresh_parser @ [n] \<and>
              add_positional p1 n h' = Throws (Duplicate_positional_name n)))
   \<and> (\<forall>p n h. (\<exists>e. add_positional p n h = Throws e) \<longleftrightarrow>
        (\<not> valid_positional_name n \<or> m_positional_args p n \<noteq> None \<or> m_optional_args p n \<noteq> None))
   \<and> (\<forall>p n h e. add_positional p n h = Throws e \<longrightarrow>
        e = Invalid_positional_name n \<or> e = Duplicate_positional_name n \<or>
        e = Positional_conflicts_optional n)
   \<and> (\<forall>p n h p'. add_positional p n h = Returns p' \<longrightarrow>
        m_positional_order p' = m_positional_order p @ [n])"
proof (intro conjI allI impI)
  show "Argument_Parser = Returns fresh_parser" by (rule Argument_Parser_fresh)
next
  fix n h h' assume "valid_positional_name n \<and> n \<noteq> ''help''"
  then show "\<exists>p1. add_positional fresh_parser n h = Returns p1 \<and>
              m_positional_order p1 = m_positional_order fresh_parser @ [n] \<and>
              add_positional p1 n h' = Throws (Duplicate_positional_name n)"
    by (simp add: add_positional_def fresh_parser_def)
next
  fix p n h
  show "(\<exists>e. add_positional p n h = Throws e) \<longleftrightarrow>
        (\<not> valid_positional_name n \<or> m_positional_args p n \<noteq> None \<or> m_optional_args p n \<noteq> None)"
    by (auto simp: add_positional_def)
next
  fix p n h e assume "add_positional p n h = Throws e"
  then show "e = Invalid_positional_name n \<or> e = Duplicate_positional_name n \<or>
        e = Positional_conflicts_optional n"
    by (auto simp: add_positional_def split: if_splits)
next
  fix p n h p' assume "add_positional p n h = Returns p'"
  then show "m_positional_order p' = m_positional_order p @ [n]"
    by (auto simp: add_positional_def split: if_splits)
qed

text \<open>The name \<open>file\<close> on a new object.\<close>

theorem declare_positional_witness:
  "valid_positional_name ''file'' \<and> ''file'' \<noteq> ''help''
   \<and> (\<exists>p1. add_positional fresh_parser ''file'' [] = Returns p1 \<and>
            m_positional_order p1 = [''file''] \<and>
            add_positional p1 ''file'' [] = Throws (Duplicate_positional_name ''file''))"
proof -
  have v: "valid_positional_name ''file'' \<and> ''file'' \<noteq> ''help''"
    by (simp add: lex_defs)
  from declare_positional v show ?thesis by (simp add: fresh_parser_def)
qed

section \<open>C5: a minus sign and the unsigned types\<close>

text \<open>
  C5. The private \<open>stoull\<close> answers a string that contains a dash with \<open>std::out_of_range\<close>
  and does not call \<open>std::stoull\<close> for it. So, for every unsigned type, the conversion of a
  string that starts with a dash throws the runtime error "must be in range" (the spec's
  RangeError), and so does \<open>arg_at\<close> for such a value of an optional or of a positional
  argument. After \<open>prog --count -5\<close>, which \<open>parse_args\<close> accepts since \<open>-5\<close> does not have
  the form of an option, \<open>arg\<close> for \<open>count\<close> throws this error at every unsigned type, where
  \<open>std::stoull\<close> alone would have given \<open>2^64 - 5\<close>.
\<close>

theorem unsigned_rejects_minus:
  "(\<forall>v. CHR ''-'' \<in> set v \<longrightarrow> stoull v = Inl out_of_range)
   \<and> (\<forall>w name r. parse_string_arg (T_unsigned w) name (CHR ''-'' # r) =
        Throws (Must_be_in_range name))
   \<and> (\<forall>p w name info idx r. m_optional_args p name = Some info \<and>
        idx < length (opt_values info) \<and> opt_values info ! idx = CHR ''-'' # r \<longrightarrow>
        arg_at p (T_unsigned w) name idx = Throws (Must_be_in_range name))
   \<and> (\<forall>p w name info idx r. m_optional_args p name = None \<and>
        m_positional_args p name = Some info \<and> pos_value info = CHR ''-'' # r \<longrightarrow>
        arg_at p (T_unsigned w) name idx = Throws (Must_be_in_range name))
   \<and> snd (parse_args opts_parser ''prog'' [''--count'', ''-5'']) =
       Returns (1, [''prog'', ''--count'', ''-5''])
   \<and> (\<forall>w. arg (fst (parse_args opts_parser ''prog'' [''--count'', ''-5''])) (T_unsigned w)
        ''count'' = Throws (Must_be_in_range ''count''))
   \<and> std_stoull ''-5'' = Inr (2 ^ 64 - 5)"
proof (intro conjI allI impI)
  fix v assume "CHR ''-'' \<in> set v"
  then show "stoull v = Inl out_of_range" by (simp add: stoull_def)
next
  fix w name r
  show "parse_string_arg (T_unsigned w) name (CHR ''-'' # r) = Throws (Must_be_in_range name)"
    by (rule unsigned_minus_range) simp
next
  fix p :: parser and w name info idx r
  assume "m_optional_args p name = Some info \<and>
        idx < length (opt_values info) \<and> opt_values info ! idx = CHR ''-'' # r"
  then have "arg_at p (T_unsigned w) name idx =
      parse_string_arg (T_unsigned w) name (CHR ''-'' # r)"
    by (simp add: get_defs del: parse_string_arg.simps)
  moreover have "parse_string_arg (T_unsigned w) name (CHR ''-'' # r) =
      Throws (Must_be_in_range name)"
    by (rule unsigned_minus_range) simp
  ultimately show "arg_at p (T_unsigned w) name idx = Throws (Must_be_in_range name)"
    by (rule trans)
next
  fix p :: parser and w name info idx r
  assume "m_optional_args p name = None \<and>
        m_positional_args p name = Some info \<and> pos_value info = CHR ''-'' # r"
  then have "arg_at p (T_unsigned w) name idx =
      parse_string_arg (T_unsigned w) name (CHR ''-'' # r)"
    by (simp add: get_defs del: parse_string_arg.simps)
  moreover have "parse_string_arg (T_unsigned w) name (CHR ''-'' # r) =
      Throws (Must_be_in_range name)"
    by (rule unsigned_minus_range) simp
  ultimately show "arg_at p (T_unsigned w) name idx = Throws (Must_be_in_range name)"
    by (rule trans)
next
  show "snd (parse_args opts_parser ''prog'' [''--count'', ''-5'']) =
       Returns (1, [''prog'', ''--count'', ''-5''])"
    by (simp add: scan_defs example_defs lex_defs)
next
  fix w
  show "arg (fst (parse_args opts_parser ''prog'' [''--count'', ''-5''])) (T_unsigned w)
        ''count'' = Throws (Must_be_in_range ''count'')"
    by (simp add: scan_defs example_defs lex_defs get_defs conv_defs)
next
  show "std_stoull ''-5'' = Inr (2 ^ 64 - 5)"
    by (simp add: conv_defs lex_defs)
qed

text \<open>The value \<open>-5\<close> of \<open>count\<close>, requested as a 32-bit unsigned integer.\<close>

theorem unsigned_rejects_minus_witness:
  "CHR ''-'' \<in> set ''-5''
   \<and> stoull ''-5'' = Inl out_of_range
   \<and> m_optional_args (fst (parse_args opts_parser ''prog'' [''--count'', ''-5''])) ''count'' =
       Some \<lparr>opt_flag = CHR '' '', opt_type = SINGLE, opt_values = [''-5''], opt_help_text = []\<rparr>
   \<and> arg_at (fst (parse_args opts_parser ''prog'' [''--count'', ''-5''])) (T_unsigned 32)
       ''count'' 0 = Throws (Must_be_in_range ''count'')"
proof -
  let ?p = "fst (parse_args opts_parser ''prog'' [''--count'', ''-5''])"
  let ?info = "\<lparr>opt_flag = CHR '' '', opt_type = SINGLE, opt_values = [''-5''],
    opt_help_text = []\<rparr>"
  have m: "CHR ''-'' \<in> set ''-5''" by simp
  have stored: "m_optional_args ?p ''count'' = Some ?info"
    by (simp add: scan_defs example_defs lex_defs)
  have h: "m_optional_args ?p ''count'' = Some ?info \<and> 0 < length (opt_values ?info) \<and>
      opt_values ?info ! 0 = CHR ''-'' # ''5''"
    using stored by simp
  note u = unsigned_rejects_minus
  from u have "\<forall>v. CHR ''-'' \<in> set v \<longrightarrow> stoull v = Inl out_of_range"
    by (rule conjunct1)
  with m have 1: "stoull ''-5'' = Inl out_of_range" by (elim allE impE)
  from u have "\<forall>p w name info idx r. m_optional_args p name = Some info \<and>
        idx < length (opt_values info) \<and> opt_values info ! idx = CHR ''-'' # r \<longrightarrow>
        arg_at p (T_unsigned w) name idx = Throws (Must_be_in_range name)"
    by (elim conjE)
  with h have 2: "arg_at ?p (T_unsigned 32) ''count'' 0 = Throws (Must_be_in_range ''count'')"
    by (elim allE impE)
  from m 1 stored 2 show ?thesis by (intro conjI)
qed

section \<open>C6: positional arguments and what is left over\<close>

text \<open>
  C6. Let \<open>parse_args\<close> return on an object that satisfies the invariant of the declarations.
  Then the loop has ended with a list of candidates, which are entries of \<open>args\<close> in the order
  in which they stand there and do not have the form of an option, and there are at least as
  many candidates as declared positional arguments. The declared argument at index \<open>i\<close> of
  the declaration order has candidate \<open>i\<close> as its value and its help text as before; as no
  name stands twice in the order, each of them is written once, and no other key of the map
  is touched. The new \<open>argc\<close> is the number of the other candidates plus one, and the first
  \<open>argc\<close> entries of the new \<open>argv\<close> are \<open>argv[0]\<close> and these candidates in their order.
\<close>

theorem positional_assignment:
  assumes inv: "registry_inv p"
    and run: "parse_args p argv0 args = (p', Returns (argc', argv'))"
  shows "\<exists>optional_args positional_args.
           scan_loop (p\<lparr>m_scriptname := argv0\<rparr>) (m_optional_args p) [] 1 (Suc (length args))
             (argv0 # args) = Returns (optional_args, positional_args) \<and>
           subseq positional_args args \<and>
           (\<forall>c\<in>set positional_args. \<not> valid_option_name c) \<and>
           length (m_positional_order p) \<le> length positional_args \<and>
           m_positional_order p' = m_positional_order p \<and>
           (\<forall>i<length (m_positional_order p).
              map_option pos_value (m_positional_args p' (m_positional_order p ! i)) =
                Some (positional_args ! i) \<and>
              map_option pos_help_text (m_positional_args p' (m_positional_order p ! i)) =
                map_option pos_help_text (m_positional_args p (m_positional_order p ! i))) \<and>
           (\<forall>k. k \<notin> set (m_positional_order p) \<longrightarrow>
              m_positional_args p' k = m_positional_args p k) \<and>
           argc' = length (drop (length (m_positional_order p)) positional_args) + 1 \<and>
           length argv' = Suc (length args) \<and>
           take argc' argv' = argv0 # drop (length (m_positional_order p)) positional_args"
proof -
  let ?p1 = "p\<lparr>m_scriptname := argv0\<rparr>"
  let ?order = "m_positional_order p"
  let ?n = "length ?order"
  from run obtain oa pa where
    scan: "scan_loop ?p1 (m_optional_args p) [] 1 (Suc (length args)) (argv0 # args) =
             Returns (oa, pa)"
    and enough: "?n \<le> length pa"
    and p': "p' = assign_positionals (?p1\<lparr>m_optional_args := oa\<rparr>) pa"
    and argc': "argc' = length pa - ?n + 1"
    and argv': "argv' = rethread ?n pa (argv0 # args)"
    by (auto simp: parse_args_def Let_def assign_positionals_fields
        split: outcome.splits prod.splits if_splits)
  from scan_loop_candidates [OF scan] have sub: "subseq pa args"
    and nonopt: "\<forall>c\<in>set pa. \<not> valid_option_name c"
    by auto
  from sub have len: "length pa \<le> length args" by (rule list_emb_length)
  from inv have dist: "distinct ?order" and keys: "set ?order = dom (m_positional_args p)"
    by (simp_all add: registry_inv_def)
  have order': "m_positional_order p' = ?order"
    by (simp add: p' assign_positionals_fields)
  have args': "m_positional_args p' =
      fold (\<lambda>i m. set_value m (?order ! i) (pa ! i)) [0 ..< ?n] (m_positional_args p)"
    by (simp add: p' assign_positionals_args)
  have assigned: "\<forall>i<?n.
      map_option pos_value (m_positional_args p' (?order ! i)) = Some (pa ! i) \<and>
      map_option pos_help_text (m_positional_args p' (?order ! i)) =
        map_option pos_help_text (m_positional_args p (?order ! i))"
  proof (intro allI impI)
    fix i assume i: "i < ?n"
    then have "?order ! i \<in> dom (m_positional_args p)" using keys by (metis nth_mem)
    then obtain info where info: "m_positional_args p (?order ! i) = Some info" by auto
    from set_value_fold_assigned [OF dist le_refl i, of pa "m_positional_args p"] info
    show "map_option pos_value (m_positional_args p' (?order ! i)) = Some (pa ! i) \<and>
      map_option pos_help_text (m_positional_args p' (?order ! i)) =
        map_option pos_help_text (m_positional_args p (?order ! i))"
      by (simp add: args')
  qed
  have others: "\<forall>k. k \<notin> set ?order \<longrightarrow> m_positional_args p' k = m_positional_args p k"
    by (simp add: args' set_value_fold_other)
  from enough len have le2: "length pa - ?n \<le> length args" by simp
  from rethread_take [OF enough le2, of argv0]
  have "take argc' argv' = argv0 # drop ?n pa" and "length argv' = Suc (length args)"
    by (simp_all add: argc' argv')
  with scan sub nonopt enough order' assigned others argc' show ?thesis
    by (intro exI [of _ oa] exI [of _ pa]) simp
qed

text \<open>
  With \<open>src\<close> and \<open>dst\<close> declared, \<open>prog a -v b --tag t c d\<close> has the candidates \<open>a\<close>, \<open>b\<close>, \<open>c\<close>
  and \<open>d\<close>: \<open>a\<close> and \<open>b\<close> are assigned, \<open>c\<close> and \<open>d\<close> are left to the caller.
\<close>

theorem positional_assignment_witness:
  "registry_inv files_parser
   \<and> parse_args files_parser ''prog'' [''a'', ''-v'', ''b'', ''--tag'', ''t'', ''c'', ''d''] =
       (fst (parse_args files_parser ''prog'' [''a'', ''-v'', ''b'', ''--tag'', ''t'', ''c'', ''d'']),
        Returns (3, [''prog'', ''c'', ''d'', ''b'', ''--tag'', ''t'', ''c'', ''d'']))
   \<and> map_option pos_value (m_positional_args
        (fst (parse_args files_parser ''prog'' [''a'', ''-v'', ''b'', ''--tag'', ''t'', ''c'', ''d'']))
        ''src'') = Some ''a''
   \<and> map_option pos_value (m_positional_args
        (fst (parse_args files_parser ''prog'' [''a'', ''-v'', ''b'', ''--tag'', ''t'', ''c'', ''d'']))
        ''dst'') = Some ''b''
   \<and> take 3 [''prog'', ''c'', ''d'', ''b'', ''--tag'', ''t'', ''c'', ''d''] = [''prog'', ''c'', ''d'']"
proof -
  let ?args = "[''a'', ''-v'', ''b'', ''--tag'', ''t'', ''c'', ''d'']"
  have run: "parse_args files_parser ''prog'' ?args =
       (fst (parse_args files_parser ''prog'' ?args),
        Returns (3, [''prog'', ''c'', ''d'', ''b'', ''--tag'', ''t'', ''c'', ''d'']))"
    by (simp add: scan_defs example_defs lex_defs)
  have vals: "map_option pos_value (m_positional_args (fst (parse_args files_parser ''prog'' ?args))
        ''src'') = Some ''a''"
     "map_option pos_value (m_positional_args (fst (parse_args files_parser ''prog'' ?args))
        ''dst'') = Some ''b''"
    by (simp_all add: scan_defs example_defs lex_defs)
  from positional_assignment [OF registry_inv_files run] registry_inv_files run vals
  show ?thesis by simp
qed

section \<open>C7: a missing positional argument\<close>

text \<open>
  C7. When the loop of \<open>parse_args\<close> ends with fewer collected positional candidates than
  there are declared positional arguments, \<open>parse_args\<close> throws the runtime error
  "requires positional argument" (the spec's MissingPositionalError) that names the entry of
  the declaration order at the index given by the number of candidates: the first
  declaration, in declaration order, without a candidate. Nothing but the script name is
  modified.
\<close>

theorem missing_positional:
  assumes "scan_loop (p\<lparr>m_scriptname := argv0\<rparr>) (m_optional_args p) [] 1 (Suc (length args))
             (argv0 # args) = Returns (optional_args, positional_args)"
    and "length positional_args < length (m_positional_order p)"
  shows "parse_args p argv0 args =
           (p\<lparr>m_scriptname := argv0\<rparr>,
            Throws (Requires_positional (m_positional_order p ! length positional_args)))"
  using assms by (simp add: parse_args_def)

text \<open>
  With \<open>src\<close> and \<open>dst\<close> declared, the command line \<open>prog -v a.txt\<close> has one candidate, and
  the error names \<open>dst\<close>.
\<close>

theorem missing_positional_witness:
  "scan_loop (files_parser\<lparr>m_scriptname := ''prog''\<rparr>) (m_optional_args files_parser) [] 1
     (Suc (length [''-v'', ''a.txt''])) [''prog'', ''-v'', ''a.txt''] =
     Returns ((m_optional_args files_parser)(''verbose'' \<mapsto>
        \<lparr>opt_flag = CHR ''v'', opt_type = FLAG, opt_values = [''true''], opt_help_text = []\<rparr>),
        [''a.txt''])
   \<and> length [''a.txt''] < length (m_positional_order files_parser)
   \<and> parse_args files_parser ''prog'' [''-v'', ''a.txt''] =
       (files_parser\<lparr>m_scriptname := ''prog''\<rparr>, Throws (Requires_positional ''dst''))"
proof -
  have scan: "scan_loop (files_parser\<lparr>m_scriptname := ''prog''\<rparr>) (m_optional_args files_parser)
     [] 1 (Suc (length [''-v'', ''a.txt''])) (''prog'' # [''-v'', ''a.txt'']) =
     Returns ((m_optional_args files_parser)(''verbose'' \<mapsto>
        \<lparr>opt_flag = CHR ''v'', opt_type = FLAG, opt_values = [''true''], opt_help_text = []\<rparr>),
        [''a.txt''])"
    by (simp add: scan_defs example_defs lex_defs)
  have less: "length [''a.txt''] < length (m_positional_order files_parser)"
    by (simp add: example_defs)
  from missing_positional [OF scan less] scan less show ?thesis
    by (simp add: example_defs)
qed

section \<open>C8: an option of kind APPEND\<close>

text \<open>
  C8. With the option \<open>--tag\<close> of kind \<open>APPEND\<close> declared on a new object, \<open>parse_args\<close> returns
  for \<open>prog --tag a --tag b\<close>, with nothing left over; after it \<open>arg_count("tag")\<close> is 2 and
  \<open>arg_at<std::string>("tag", i)\<close> is \<open>a\<close> for index 0 and \<open>b\<close> for index 1. In general, every
  occurrence of an option of kind \<open>APPEND\<close> that \<open>parse_optional_arg\<close> accepts puts the entry
  of \<open>argv\<close> that follows it at the end of the values of the option, and changes nothing else
  in the map.
\<close>

theorem append_round_trip:
  "add_optional fresh_parser ''--tag'' APPEND [] = Returns (tag_parser, ''tag'')
   \<and> snd (parse_args tag_parser ''prog'' [''--tag'', ''a'', ''--tag'', ''b'']) =
     Returns (1, [''prog'', ''--tag'', ''a'', ''--tag'', ''b''])
   \<and> arg_count (fst (parse_args tag_parser ''prog'' [''--tag'', ''a'', ''--tag'', ''b''])) ''tag'' =
       Returns 2
   \<and> arg_at (fst (parse_args tag_parser ''prog'' [''--tag'', ''a'', ''--tag'', ''b'']))
       T_string ''tag'' 0 = Returns (V_string ''a'')
   \<and> arg_at (fst (parse_args tag_parser ''prog'' [''--tag'', ''a'', ''--tag'', ''b'']))
       T_string ''tag'' 1 = Returns (V_string ''b'')
   \<and> (\<forall>p optional_args option_name argi argc argv ref_name info optional_args' argi'.
        lookup_formatted_option_name p option_name = Returns ref_name \<and>
        optional_args ref_name = Some info \<and> opt_type info = APPEND \<and>
        parse_optional_arg p optional_args option_name argi argc argv =
          Returns (optional_args', argi')
        \<longrightarrow> argi' = Suc argi \<and>
            optional_args' = optional_args(ref_name \<mapsto>
              info\<lparr>opt_values := opt_values info @ [argv ! Suc argi]\<rparr>))"
proof (intro conjI allI impI)
  show "add_optional fresh_parser ''--tag'' APPEND [] = Returns (tag_parser, ''tag'')"
    by (rule tag_parser_declared)
  show "snd (parse_args tag_parser ''prog'' [''--tag'', ''a'', ''--tag'', ''b'']) =
     Returns (1, [''prog'', ''--tag'', ''a'', ''--tag'', ''b''])"
    by (simp add: scan_defs example_defs lex_defs)
  show "arg_count (fst (parse_args tag_parser ''prog'' [''--tag'', ''a'', ''--tag'', ''b''])) ''tag'' =
       Returns 2"
    by (simp add: scan_defs example_defs lex_defs get_defs)
  show "arg_at (fst (parse_args tag_parser ''prog'' [''--tag'', ''a'', ''--tag'', ''b'']))
       T_string ''tag'' 0 = Returns (V_string ''a'')"
    by (simp add: scan_defs example_defs lex_defs get_defs)
  show "arg_at (fst (parse_args tag_parser ''prog'' [''--tag'', ''a'', ''--tag'', ''b'']))
       T_string ''tag'' 1 = Returns (V_string ''b'')"
    by (simp add: scan_defs example_defs lex_defs get_defs)
next
  fix p :: parser
    and optional_args option_name argi argc argv ref_name info optional_args' argi'
  assume h: "lookup_formatted_option_name p option_name = Returns ref_name \<and>
        optional_args ref_name = Some info \<and> opt_type info = APPEND \<and>
        parse_optional_arg p optional_args option_name argi argc argv =
          Returns (optional_args', argi')"
  then show "argi' = Suc argi"
    by (auto simp: parse_optional_arg_def Let_def split: if_splits)
  from h show "optional_args' = optional_args(ref_name \<mapsto>
              info\<lparr>opt_values := opt_values info @ [argv ! Suc argi]\<rparr>)"
    by (auto simp: parse_optional_arg_def Let_def split: if_splits)
qed

text \<open>The first occurrence of \<open>--tag\<close> in \<open>prog --tag a\<close>.\<close>

theorem append_round_trip_witness:
  "lookup_formatted_option_name tag_parser ''--tag'' = Returns ''tag''
   \<and> parse_optional_arg tag_parser (m_optional_args tag_parser) ''--tag'' 1 3
       [''prog'', ''--tag'', ''a''] =
     Returns ((m_optional_args tag_parser)(''tag'' \<mapsto>
        \<lparr>opt_flag = CHR '' '', opt_type = APPEND, opt_values = [''a''], opt_help_text = []\<rparr>), 2)
   \<and> arg_count (fst (parse_args tag_parser ''prog'' [''--tag'', ''a'', ''--tag'', ''b''])) ''tag'' =
       Returns 2"
proof -
  have l: "lookup_formatted_option_name tag_parser ''--tag'' = Returns ''tag''"
    by (simp add: lookup_formatted_option_name_def example_defs lex_defs)
  have r: "parse_optional_arg tag_parser (m_optional_args tag_parser) ''--tag'' 1 3
       [''prog'', ''--tag'', ''a''] =
     Returns ((m_optional_args tag_parser)(''tag'' \<mapsto>
        \<lparr>opt_flag = CHR '' '', opt_type = APPEND, opt_values = [''a''], opt_help_text = []\<rparr>), 2)"
    by (simp add: parse_optional_arg_def lookup_formatted_option_name_def example_defs lex_defs)
  from append_round_trip l r show ?thesis by simp
qed

section \<open>C9: a scan that fails changes no value\<close>

text \<open>
  C9. A call of \<open>parse_args\<close> that throws leaves both maps of the object as they were: no
  optional argument has gained a value and no positional argument has been assigned. The
  object differs from the one before the call in \<open>m_scriptname\<close> alone, which is assigned
  before the loop starts. What \<open>parse_args\<close> throws is one of the five runtime errors of
  scanning: an unknown option or flag, a missing value, an option given twice, or a missing
  positional argument.
\<close>

theorem scan_atomic:
  assumes "parse_args p argv0 args = (p', Throws e)"
  shows "m_optional_args p' = m_optional_args p \<and> m_positional_args p' = m_positional_args p
         \<and> p' = p\<lparr>m_scriptname := argv0\<rparr>
         \<and> (\<exists>s. e = Invalid_option s \<or> e = Invalid_flag s \<or> e = Requires_value s \<or>
                e = Only_once s \<or> e = Requires_positional s)"
proof -
  from assms have "p' = p\<lparr>m_scriptname := argv0\<rparr>"
    by (auto simp: parse_args_def Let_def split: outcome.splits prod.splits if_splits)
  moreover have "\<exists>s. e = Invalid_option s \<or> e = Invalid_flag s \<or> e = Requires_value s \<or>
                e = Only_once s \<or> e = Requires_positional s"
  proof (cases "scan_loop (p\<lparr>m_scriptname := argv0\<rparr>) (m_optional_args p) [] 1
      (Suc (length args)) (argv0 # args)")
    case (Returns x)
    with assms show ?thesis
      by (auto simp: parse_args_def Let_def split: prod.splits if_splits)
  next
    case (Throws e')
    with assms have "e' = e" by (simp add: parse_args_def)
    with scan_loop_throws [OF Throws] show ?thesis by blast
  next
    case Exits
    with assms show ?thesis by (simp add: parse_args_def)
  qed
  ultimately show ?thesis by simp
qed

text \<open>
  \<open>prog --tag a --bogus\<close> fails at the unknown option, after \<open>--tag a\<close> has been read: the
  option \<open>tag\<close> still has no value.
\<close>

theorem scan_atomic_witness:
  "parse_args opts_parser ''prog'' [''--tag'', ''a'', ''--bogus''] =
     (opts_parser\<lparr>m_scriptname := ''prog''\<rparr>, Throws (Invalid_option ''--bogus''))
   \<and> m_optional_args (opts_parser\<lparr>m_scriptname := ''prog''\<rparr>) = m_optional_args opts_parser
   \<and> m_positional_args (opts_parser\<lparr>m_scriptname := ''prog''\<rparr>) = m_positional_args opts_parser
   \<and> map_option opt_values (m_optional_args opts_parser ''tag'') = Some []"
proof -
  have run: "parse_args opts_parser ''prog'' [''--tag'', ''a'', ''--bogus''] =
     (opts_parser\<lparr>m_scriptname := ''prog''\<rparr>, Throws (Invalid_option ''--bogus''))"
    by (simp add: scan_defs example_defs lex_defs)
  from scan_atomic [OF run] run show ?thesis
    by (simp add: example_defs)
qed

section \<open>C10: the empty string as the value of an option\<close>

text \<open>
  C10. When the first value of an optional argument is the empty string, \<open>arg\<close> treats the
  argument as one without a value: without a default value it throws the logic error "no
  value given" (the spec's NoValueError), with a default value it returns the default
  value. \<open>has_arg\<close> returns \<open>true\<close> for the same name and \<open>arg_count\<close> counts the entry. (An
  option of kind \<open>FLAG\<close> never stores the empty string, so this is about the kinds \<open>SINGLE\<close>
  and \<open>APPEND\<close>.)
\<close>

theorem empty_value_absent:
  assumes "m_optional_args p name = Some info"
    and "opt_values info \<noteq> []"
    and "opt_values info ! 0 = []"
  shows "arg p T name = Throws (No_value_no_default name)
         \<and> arg_default p T name default_val = Returns default_val
         \<and> has_arg p name = Returns True
         \<and> arg_count p name = Returns (length (opt_values info))
         \<and> 0 < length (opt_values info)"
  using assms by (simp add: get_defs)

text \<open>After \<open>prog --output ""\<close>, the option \<open>output\<close> has the empty string as its value.\<close>

theorem empty_value_absent_witness:
  "m_optional_args (fst (parse_args opts_parser ''prog'' [''--output'', ''''])) ''output'' =
     Some \<lparr>opt_flag = CHR ''o'', opt_type = SINGLE, opt_values = [''''], opt_help_text = []\<rparr>
   \<and> arg (fst (parse_args opts_parser ''prog'' [''--output'', ''''])) T_string ''output'' =
       Throws (No_value_no_default ''output'')
   \<and> arg_default (fst (parse_args opts_parser ''prog'' [''--output'', ''''])) T_string ''output''
       (V_string ''out.txt'') = Returns (V_string ''out.txt'')
   \<and> has_arg (fst (parse_args opts_parser ''prog'' [''--output'', ''''])) ''output'' = Returns True
   \<and> arg_count (fst (parse_args opts_parser ''prog'' [''--output'', ''''])) ''output'' = Returns 1"
proof -
  let ?p = "fst (parse_args opts_parser ''prog'' [''--output'', ''''])"
  let ?info = "\<lparr>opt_flag = CHR ''o'', opt_type = SINGLE, opt_values = [''''], opt_help_text = []\<rparr>"
  have stored: "m_optional_args ?p ''output'' = Some ?info"
    by (simp add: scan_defs example_defs lex_defs)
  have some: "opt_values ?info \<noteq> []" and empty: "opt_values ?info ! 0 = []"
    by simp_all
  from empty_value_absent [OF stored some empty, of T_string "V_string ''out.txt''"] stored
  show ?thesis by simp
qed

end
